theory Spec2Isabelle
  imports Complex_Main "HOL-Library.AList"
begin

section \<open>JavaScript values, exceptions and caller-supplied functions\<close>

text \<open>
  The values \<^verbatim>\<open>JSON.parse\<close> can return, and \<^verbatim>\<open>undefined\<close> for a property that is
  absent. A number is held by its canonical rendering (what \<^verbatim>\<open>String(n)\<close> gives), so
  both zeros are \<open>''0''\<close>. The property names of an object are distinct.
\<close>

datatype jsval =
    JUndefined
  | JNull
  | JBool bool
  | JNum string
  | JStr string
  | JArr "jsval list"
  | JObj "(string \<times> jsval) list"

text \<open>Instances of \<^verbatim>\<open>Error\<close>; the message of a built-in error depends on the engine.\<close>

datatype error = SyntaxError | TypeError | Error string

text \<open>A thrown value is an instance of \<^verbatim>\<open>Error\<close> or any other value.\<close>

datatype thrown = Instance error | NonError jsval

text \<open>
  \<^verbatim>\<open>type MessageHandler<T> = (data: T) => void\<close> and
  \<^verbatim>\<open>type ErrorHandler = (error: Error) => void\<close>: functions of the caller. A call either
  returns (\<open>None\<close>) or throws; the number identifies the function in the trace. They are
  taken not to call back into the client.
\<close>

datatype MessageHandler = MessageHandler (mh_id: nat) (mh_run: "jsval \<Rightarrow> thrown option")

datatype ErrorHandler = ErrorHandler (eh_id: nat) (eh_run: "error \<Rightarrow> thrown option")

text \<open>\<^verbatim>\<open>interface Subscription { channel; symbol?; handler }\<close>\<close>

record Subscription =
  channel :: string
  symbol :: "string option"
  handler :: MessageHandler

text \<open>The objects handed to \<^verbatim>\<open>send\<close>, before \<^verbatim>\<open>JSON.stringify\<close>.\<close>

datatype wire =
    Subscribe string "string option"
  | Unsubscribe string "string option"
  | Ping

text \<open>
  A \<^verbatim>\<open>number\<close> of the source is an IEEE double: not a number, an infinity, the negative
  zero, or a finite value, held here by the rational it denotes (every finite double is
  such a rational; that every rational is a double is nowhere assumed). \<open>numGe a b\<close> is
  \<^verbatim>\<open>a >= b\<close> and \<open>numLess a b\<close> is \<^verbatim>\<open>a < b\<close>: both are false when a side is \<^verbatim>\<open>NaN\<close>, and
  the two zeros compare equal.
\<close>

datatype number = NaN | PosInf | NegInf | NegZero | Fin rat

fun level :: "number \<Rightarrow> (int \<times> rat) option" where
  "level NaN = None"
| "level PosInf = Some (1, 0)"
| "level NegInf = Some (- 1, 0)"
| "level NegZero = Some (0, 0)"
| "level (Fin r) = Some (0, r)"

definition numGe :: "number \<Rightarrow> number \<Rightarrow> bool" where
  "numGe a b =
     (case level a of
        None \<Rightarrow> False
      | Some (s, x) \<Rightarrow>
          (case level b of
             None \<Rightarrow> False
           | Some (t, y) \<Rightarrow> t < s \<or> (s = t \<and> y \<le> x)))"

definition numLess :: "number \<Rightarrow> number \<Rightarrow> bool" where
  "numLess a b =
     (case level a of
        None \<Rightarrow> False
      | Some (s, x) \<Rightarrow>
          (case level b of
             None \<Rightarrow> False
           | Some (t, y) \<Rightarrow> s < t \<or> (s = t \<and> x < y)))"

section \<open>The transport and the timers of the host\<close>

datatype readyState = CONNECTING | OPEN | CLOSING | CLOSED

text \<open>Who awaits the promise that \<^verbatim>\<open>connect\<close> returned for a socket.\<close>

datatype origin = ByCaller | ByTimer

datatype promise = Pending origin | Settled

datatype auth = ApiKeyParam string | TokenParam string

record socket =
  readyState :: readyState
  target :: "string \<times> auth option"
  promise :: promise

datatype event =
    HandlerCalled nat jsval
  | ErrorHandlerCalled nat error
  | Sent nat wire
  | TimeoutSet nat number
  | ConnectRejected error
  | Uncaught thrown

text \<open>
  The functions of the host that the client calls and that are no part of it:
  \<^verbatim>\<open>JSON.parse\<close> (\<open>None\<close> when it throws its \<^verbatim>\<open>SyntaxError\<close>), and the constructors
  \<^verbatim>\<open>new URL\<close> and \<^verbatim>\<open>new WebSocket\<close> (\<open>Some e\<close> when one of them throws \<open>e\<close>). The
  arithmetic of doubles is the host's too and is not idealised: the product \<^verbatim>\<open>a * b\<close>
  rounds to a double and overflows to an infinity, and the standard leaves the precision of
  \<^verbatim>\<open>Math.pow\<close> to the implementation. Every theorem below holds for whatever these two
  functions return.
\<close>

record host =
  JSON_parse :: "string \<Rightarrow> jsval option"
  construct :: "string \<Rightarrow> error option"
  multiply :: "number \<Rightarrow> number \<Rightarrow> number"
  Math_pow :: "number \<Rightarrow> number \<Rightarrow> number"

section \<open>The client\<close>

text \<open>
  The fields of \<^verbatim>\<open>KlingExWebSocket\<close> (the three options flattened), then the state of the
  host that the client acts on: the sockets ever constructed (a handle is an index), the
  pending timeouts with their delays, the running intervals, the next timer id, and the
  trace of what was observable from outside.
\<close>

record client =
  ws :: "nat option"
  url :: string
  apiKey :: "string option"
  jwt :: "string option"
  reconnect :: bool
  reconnectInterval :: number
  maxReconnectAttempts :: number
  subscriptions :: "(string \<times> Subscription) list"
  reconnectAttempts :: nat
  reconnectTimeout :: "nat option"
  pingInterval :: "nat option"
  isConnecting :: bool
  errorHandler :: "ErrorHandler option"
  sockets :: "socket list"
  timeouts :: "(nat \<times> number) list"
  intervals :: "nat list"
  nextTimer :: nat
  trace :: "event list"

record WebSocketOptions =
  opt_reconnect :: "bool option"
  opt_reconnectInterval :: "number option"
  opt_maxReconnectAttempts :: "number option"

definition emit :: "event \<Rightarrow> client \<Rightarrow> client" where
  "emit e c = c\<lparr>trace := trace c @ [e]\<rparr>"

text \<open>\<^verbatim>\<open>constructor(url, auth, options = {})\<close>\<close>

definition KlingExWebSocket ::
  "string \<Rightarrow> string option \<times> string option \<Rightarrow> WebSocketOptions \<Rightarrow> client" where
  "KlingExWebSocket u a options =
     \<lparr>ws = None, url = u, apiKey = fst a, jwt = snd a,
      reconnect = (case opt_reconnect options of None \<Rightarrow> True | Some b \<Rightarrow> b),
      reconnectInterval = (case opt_reconnectInterval options of None \<Rightarrow> Fin 5000 | Some i \<Rightarrow> i),
      maxReconnectAttempts = (case opt_maxReconnectAttempts options of None \<Rightarrow> Fin 10 | Some m \<Rightarrow> m),
      subscriptions = [], reconnectAttempts = 0, reconnectTimeout = None,
      pingInterval = None, isConnecting = False, errorHandler = None,
      sockets = [], timeouts = [], intervals = [], nextTimer = 1, trace = []\<rparr>"

text \<open>\<^verbatim>\<open>this.ws?.readyState === WebSocket.OPEN\<close>\<close>

definition wsOpen :: "client \<Rightarrow> bool" where
  "wsOpen c =
     (case ws c of
        None \<Rightarrow> False
      | Some h \<Rightarrow> h < length (sockets c) \<and> readyState (sockets c ! h) = OPEN)"

text \<open>\<^verbatim>\<open>this.errorHandler?.(e)\<close>: the result is what the handler throws, if it does.\<close>

definition callErrorHandler :: "error \<Rightarrow> client \<Rightarrow> thrown option \<times> client" where
  "callErrorHandler e c =
     (case errorHandler c of
        None \<Rightarrow> (None, c)
      | Some h \<Rightarrow> (eh_run h e, emit (ErrorHandlerCalled (eh_id h) e) c))"

text \<open>\<^verbatim>\<open>error instanceof Error ? error : new Error(msg)\<close>\<close>

definition asError :: "string \<Rightarrow> thrown \<Rightarrow> error" where
  "asError msg t = (case t of Instance e \<Rightarrow> e | NonError v \<Rightarrow> Error msg)"

subsection \<open>Sending\<close>

text \<open>\<^verbatim>\<open>if (this.ws?.readyState === WebSocket.OPEN) this.ws.send(JSON.stringify(data))\<close>\<close>

definition send :: "wire \<Rightarrow> client \<Rightarrow> client" where
  "send data c =
     (case ws c of
        None \<Rightarrow> c
      | Some h \<Rightarrow> if wsOpen c then emit (Sent h data) c else c)"

definition sendSubscribe :: "string \<Rightarrow> string option \<Rightarrow> client \<Rightarrow> client" where
  "sendSubscribe ch sy c = send (Subscribe ch sy) c"

definition sendUnsubscribe :: "string \<Rightarrow> string option \<Rightarrow> client \<Rightarrow> client" where
  "sendUnsubscribe ch sy c = send (Unsubscribe ch sy) c"

subsection \<open>The registry\<close>

text \<open>
  \<^verbatim>\<open>const key = symbol ? `${channel}:${symbol}` : channel\<close>; the empty string is falsy
  as \<^verbatim>\<open>undefined\<close> is.
\<close>

definition subscriptionKey :: "string \<Rightarrow> string option \<Rightarrow> string" where
  "subscriptionKey ch sy =
     (case sy of
        None \<Rightarrow> ch
      | Some s \<Rightarrow> if s = [] then ch else ch @ '':'' @ s)"

text \<open>What the closure returned by \<^verbatim>\<open>subscribe\<close> has captured.\<close>

record closure =
  c_key :: string
  c_channel :: string
  c_symbol :: "string option"

definition subscribe ::
  "string \<Rightarrow> string option \<Rightarrow> MessageHandler \<Rightarrow> client \<Rightarrow> closure \<times> client" where
  "subscribe ch sy h c =
     (let key = subscriptionKey ch sy;
          c1 = c\<lparr>subscriptions :=
                 AList.update key \<lparr>channel = ch, symbol = sy, handler = h\<rparr> (subscriptions c)\<rparr>;
          c2 = (if wsOpen c1 then sendSubscribe ch sy c1 else c1)
      in (\<lparr>c_key = key, c_channel = ch, c_symbol = sy\<rparr>, c2))"

text \<open>Calling the function that \<^verbatim>\<open>subscribe\<close> returned.\<close>

definition unsubscribe :: "closure \<Rightarrow> client \<Rightarrow> client" where
  "unsubscribe u c =
     (let c1 = c\<lparr>subscriptions := AList.delete (c_key u) (subscriptions c)\<rparr>
      in if wsOpen c1 then sendUnsubscribe (c_channel u) (c_symbol u) c1 else c1)"

definition orderbook :: "string \<Rightarrow> MessageHandler \<Rightarrow> client \<Rightarrow> closure \<times> client" where
  "orderbook sy h c = subscribe ''orderbook'' (Some sy) h c"

definition trades :: "string \<Rightarrow> MessageHandler \<Rightarrow> client \<Rightarrow> closure \<times> client" where
  "trades sy h c = subscribe ''trades'' (Some sy) h c"

definition ticker :: "string \<Rightarrow> MessageHandler \<Rightarrow> client \<Rightarrow> closure \<times> client" where
  "ticker sy h c = subscribe ''ticker'' (Some sy) h c"

definition userOrders :: "MessageHandler \<Rightarrow> client \<Rightarrow> closure \<times> client" where
  "userOrders h c = subscribe ''user.orders'' None h c"

definition userBalances :: "MessageHandler \<Rightarrow> client \<Rightarrow> closure \<times> client" where
  "userBalances h c = subscribe ''user.balances'' None h c"

definition resubscribeAll :: "client \<Rightarrow> client" where
  "resubscribeAll c =
     foldl (\<lambda>c' (k, s). sendSubscribe (channel s) (symbol s) c') c (subscriptions c)"

subsection \<open>The message router\<close>

text \<open>
  Reading a property named \<open>type\<close>, \<open>data\<close>, \<open>channel\<close> or \<open>symbol\<close> of a value
  that is not \<^verbatim>\<open>null\<close>: no built-in prototype defines one of these, so only an object's
  own property can give a value, and every other read gives \<^verbatim>\<open>undefined\<close>. Reading a
  property of \<^verbatim>\<open>null\<close> throws a \<^verbatim>\<open>TypeError\<close>.
\<close>

definition nullish :: "jsval \<Rightarrow> bool" where
  "nullish v = (v = JNull \<or> v = JUndefined)"

fun getProp :: "jsval \<Rightarrow> string \<Rightarrow> jsval" where
  "getProp (JObj kvs) k = (case map_of kvs k of None \<Rightarrow> JUndefined | Some v \<Rightarrow> v)"
| "getProp v k = JUndefined"

fun truthy :: "jsval \<Rightarrow> bool" where
  "truthy JUndefined = False"
| "truthy JNull = False"
| "truthy (JBool b) = b"
| "truthy (JNum s) = (s \<noteq> ''0'')"
| "truthy (JStr s) = (s \<noteq> [])"
| "truthy (JArr xs) = True"
| "truthy (JObj kvs) = True"

text \<open>\<^verbatim>\<open>typeof v === 'object'\<close>\<close>

fun typeofObject :: "jsval \<Rightarrow> bool" where
  "typeofObject JNull = True"
| "typeofObject (JArr xs) = True"
| "typeofObject (JObj kvs) = True"
| "typeofObject v = False"

text \<open>\<^verbatim>\<open>'symbol' in v\<close>, for \<open>v\<close> an object or an array.\<close>

fun hasSymbol :: "jsval \<Rightarrow> bool" where
  "hasSymbol (JObj kvs) = (map_of kvs ''symbol'' \<noteq> None)"
| "hasSymbol v = False"

text \<open>
  The conversion to a string that a template literal applies. \<open>None\<close> is the
  \<^verbatim>\<open>TypeError\<close> for an object whose own \<open>toString\<close> property hides the inherited method:
  a parsed value is never callable, and the inherited \<^verbatim>\<open>valueOf\<close> returns the object.
  An array joins its elements with commas, \<^verbatim>\<open>null\<close> giving the empty string.
\<close>

fun toString :: "jsval \<Rightarrow> string option"
  and joinElements :: "jsval list \<Rightarrow> string option" where
  "toString JUndefined = Some ''undefined''"
| "toString JNull = Some ''null''"
| "toString (JBool b) = Some (if b then ''true'' else ''false'')"
| "toString (JNum s) = Some s"
| "toString (JStr s) = Some s"
| "toString (JArr xs) = joinElements xs"
| "toString (JObj kvs) =
     (if map_of kvs ''toString'' \<noteq> None then None else Some ''[object Object]'')"
| "joinElements [] = Some []"
| "joinElements (x # xs) =
     (case (if x = JNull \<or> x = JUndefined then Some [] else toString x) of
        None \<Rightarrow> None
      | Some s \<Rightarrow>
          (case joinElements xs of
             None \<Rightarrow> None
           | Some r \<Rightarrow> Some (if xs = [] then s else s @ '','' @ r)))"

text \<open>
  The routing key of a decoded message that is not \<^verbatim>\<open>null\<close> (\<open>None\<close> when a conversion
  to a string throws):
  \<^verbatim>\<open>message.data && typeof message.data === 'object' && 'symbol' in message.data
      ? `${message.channel}:${message.data.symbol}` : message.channel\<close>
\<close>

definition routingKey :: "jsval \<Rightarrow> jsval option" where
  "routingKey message =
     (let d = getProp message ''data''; ch = getProp message ''channel''
      in if truthy d \<and> typeofObject d \<and> hasSymbol d then
           (case toString ch of
              None \<Rightarrow> None
            | Some cs \<Rightarrow>
                (case toString (getProp d ''symbol'') of
                   None \<Rightarrow> None
                 | Some ss \<Rightarrow> Some (JStr (cs @ '':'' @ ss))))
         else Some ch)"

text \<open>\<^verbatim>\<open>this.subscriptions.get(k)\<close>: every key of the registry is a string.\<close>

definition registryGet :: "client \<Rightarrow> jsval \<Rightarrow> Subscription option" where
  "registryGet c k = (case k of JStr s \<Rightarrow> map_of (subscriptions c) s | _ \<Rightarrow> None)"

text \<open>\<^verbatim>\<open>this.subscriptions.get(key) || this.subscriptions.get(message.channel)\<close>\<close>

definition findSubscription :: "client \<Rightarrow> jsval \<Rightarrow> jsval \<Rightarrow> Subscription option" where
  "findSubscription c key ch =
     (case registryGet c key of Some s \<Rightarrow> Some s | None \<Rightarrow> registryGet c ch)"

text \<open>\<^verbatim>\<open>subscription.handler(message.data)\<close>\<close>

definition callHandler :: "MessageHandler \<Rightarrow> jsval \<Rightarrow> client \<Rightarrow> thrown option \<times> client" where
  "callHandler h v c = (mh_run h v, emit (HandlerCalled (mh_id h) v) c)"

text \<open>The body of the \<^verbatim>\<open>try\<close> block of \<^verbatim>\<open>handleMessage\<close>: what it throws, if it does.\<close>

definition handleMessage_try :: "host \<Rightarrow> string \<Rightarrow> client \<Rightarrow> thrown option \<times> client" where
  "handleMessage_try H data c =
     (case JSON_parse H data of
        None \<Rightarrow> (Some (Instance SyntaxError), c)
      | Some message \<Rightarrow>
          if nullish message then (Some (Instance TypeError), c)
          else if getProp message ''type'' = JStr ''pong'' then (None, c)
          else
            (case routingKey message of
               None \<Rightarrow> (Some (Instance TypeError), c)
             | Some key \<Rightarrow>
                 (case findSubscription c key (getProp message ''channel'') of
                    None \<Rightarrow> (None, c)
                  | Some subscription \<Rightarrow>
                      callHandler (handler subscription) (getProp message ''data'') c)))"

definition handleMessage :: "host \<Rightarrow> string \<Rightarrow> client \<Rightarrow> thrown option \<times> client" where
  "handleMessage H data c =
     (case handleMessage_try H data c of
        (None, c') \<Rightarrow> (None, c')
      | (Some err, c') \<Rightarrow> callErrorHandler (asError ''Failed to parse message'' err) c')"

subsection \<open>Timers\<close>

text \<open>
  \<^verbatim>\<open>this.pingInterval = setInterval(() => { this.send({ type: 'ping' }) }, 30000)\<close>; an
  interval that is already running is not cleared.
\<close>

definition startPingInterval :: "client \<Rightarrow> client" where
  "startPingInterval c =
     c\<lparr>pingInterval := Some (nextTimer c), intervals := intervals c @ [nextTimer c],
       nextTimer := Suc (nextTimer c)\<rparr>"

definition stopPingInterval :: "client \<Rightarrow> client" where
  "stopPingInterval c =
     (case pingInterval c of
        None \<Rightarrow> c
      | Some i \<Rightarrow> c\<lparr>intervals := removeAll i (intervals c), pingInterval := None\<rparr>)"

text \<open>
  \<^verbatim>\<open>this.options.reconnectInterval * Math.pow(1.5, this.reconnectAttempts - 1)\<close>, with
  \<open>n\<close> the attempt counter after its increment: the double that the host's product and
  \<^verbatim>\<open>Math.pow\<close> give. The counter itself is a natural number below \<open>2 ^ 53\<close>, where the
  doubles count exactly.
\<close>

definition reconnectDelay :: "host \<Rightarrow> number \<Rightarrow> nat \<Rightarrow> number" where
  "reconnectDelay H interval n =
     multiply H interval (Math_pow H (Fin (3 / 2)) (Fin (of_nat (n - 1))))"

definition scheduleReconnect :: "host \<Rightarrow> client \<Rightarrow> thrown option \<times> client" where
  "scheduleReconnect H c =
     (if numGe (Fin (of_nat (reconnectAttempts c))) (maxReconnectAttempts c) then
        callErrorHandler (Error ''Max reconnection attempts reached'') c
      else
        (let n = Suc (reconnectAttempts c);
             delay = reconnectDelay H (reconnectInterval c) n;
             t = nextTimer c
         in (None, emit (TimeoutSet t delay)
                    (c\<lparr>reconnectAttempts := n, reconnectTimeout := Some t,
                       timeouts := timeouts c @ [(t, delay)], nextTimer := Suc t\<rparr>))))"

subsection \<open>The connection manager\<close>

text \<open>Recording an exception that reached the host's own event dispatch.\<close>

definition uncaught :: "thrown option \<times> client \<Rightarrow> client" where
  "uncaught r = (case fst r of None \<Rightarrow> snd r | Some x \<Rightarrow> emit (Uncaught x) (snd r))"

definition setSocket :: "nat \<Rightarrow> (socket \<Rightarrow> socket) \<Rightarrow> client \<Rightarrow> client" where
  "setSocket h f c =
     (if h < length (sockets c) then c\<lparr>sockets := (sockets c)[h := f (sockets c ! h)]\<rparr> else c)"

text \<open>
  \<^verbatim>\<open>resolve()\<close> and \<^verbatim>\<open>reject(err)\<close> of the promise made for socket \<open>h\<close>; a settled promise
  ignores both. A rejection reaches the caller of \<^verbatim>\<open>connect\<close>, or the \<^verbatim>\<open>catch\<close> that the
  reconnect timer has attached:
  \<^verbatim>\<open>this.errorHandler?.(error instanceof Error ? error : new Error('Reconnection failed'))\<close>
\<close>

definition rejected :: "origin \<Rightarrow> error \<Rightarrow> client \<Rightarrow> client" where
  "rejected who err c =
     (case who of
        ByCaller \<Rightarrow> emit (ConnectRejected err) c
      | ByTimer \<Rightarrow>
          uncaught (callErrorHandler (asError ''Reconnection failed'' (Instance err)) c))"

definition resolve :: "nat \<Rightarrow> client \<Rightarrow> client" where
  "resolve h c = setSocket h (\<lambda>s. s\<lparr>promise := Settled\<rparr>) c"

definition reject :: "nat \<Rightarrow> error \<Rightarrow> client \<Rightarrow> client" where
  "reject h err c =
     (if h < length (sockets c) then
        (case promise (sockets c ! h) of
           Settled \<Rightarrow> c
         | Pending who \<Rightarrow> rejected who err (setSocket h (\<lambda>s. s\<lparr>promise := Settled\<rparr>) c))
      else c)"

text \<open>
  \<^verbatim>\<open>if (this.apiKey) searchParams.set('apiKey', ...) else if (this.jwt)
  searchParams.set('token', ...)\<close>
\<close>

definition authParam :: "client \<Rightarrow> auth option" where
  "authParam c =
     (case apiKey c of
        Some k \<Rightarrow>
          if k \<noteq> [] then Some (ApiKeyParam k)
          else (case jwt c of
                  Some j \<Rightarrow> if j \<noteq> [] then Some (TokenParam j) else None
                | None \<Rightarrow> None)
      | None \<Rightarrow>
          (case jwt c of
             Some j \<Rightarrow> if j \<noteq> [] then Some (TokenParam j) else None
           | None \<Rightarrow> None))"

text \<open>
  \<^verbatim>\<open>connect()\<close>, called by \<open>who\<close>, which receives the promise. The four handlers of the new
  socket are the functions \<open>onopen\<close>, \<open>onclose\<close>, \<open>onerror\<close> and \<open>onmessage\<close> below.
\<close>

definition connect :: "host \<Rightarrow> origin \<Rightarrow> client \<Rightarrow> client" where
  "connect H who c =
     (if wsOpen c \<or> isConnecting c then c
      else
        (let c1 = c\<lparr>isConnecting := True\<rparr>
         in case construct H (url c1) of
              Some err \<Rightarrow> rejected who err (c1\<lparr>isConnecting := False\<rparr>)
            | None \<Rightarrow>
                c1\<lparr>ws := Some (length (sockets c1)),
                   sockets := sockets c1 @
                     [\<lparr>readyState = CONNECTING, target = (url c1, authParam c1),
                       promise = Pending who\<rparr>]\<rparr>))"

definition onopen :: "nat \<Rightarrow> client \<Rightarrow> client" where
  "onopen h c =
     resolve h (resubscribeAll (startPingInterval
       (c\<lparr>isConnecting := False, reconnectAttempts := 0\<rparr>)))"

definition onclose :: "host \<Rightarrow> nat \<Rightarrow> bool \<Rightarrow> client \<Rightarrow> thrown option \<times> client" where
  "onclose H h wasClean c =
     (let c1 = stopPingInterval (c\<lparr>isConnecting := False\<rparr>)
      in if reconnect c1 \<and> \<not> wasClean then scheduleReconnect H c1 else (None, c1))"

definition onerror :: "nat \<Rightarrow> client \<Rightarrow> thrown option \<times> client" where
  "onerror h c =
     (let err = Error ''WebSocket error'';
          r = callErrorHandler err (c\<lparr>isConnecting := False\<rparr>)
      in case fst r of
           Some x \<Rightarrow> (Some x, snd r)
         | None \<Rightarrow> (None, reject h err (snd r)))"

definition onmessage :: "host \<Rightarrow> nat \<Rightarrow> string \<Rightarrow> client \<Rightarrow> thrown option \<times> client" where
  "onmessage H h data c = handleMessage H data c"

text \<open>\<^verbatim>\<open>WebSocket.close\<close>: a socket that is connecting or open starts closing.\<close>

definition ws_close :: "nat \<Rightarrow> client \<Rightarrow> client" where
  "ws_close h c =
     setSocket h
       (\<lambda>s. if readyState s = CONNECTING \<or> readyState s = OPEN
             then s\<lparr>readyState := CLOSING\<rparr> else s) c"

definition disconnect :: "client \<Rightarrow> client" where
  "disconnect c =
     (let c1 = stopPingInterval (c\<lparr>reconnect := False\<rparr>);
          c2 = (case reconnectTimeout c1 of
                  None \<Rightarrow> c1
                | Some t \<Rightarrow>
                    c1\<lparr>timeouts := filter (\<lambda>p. fst p \<noteq> t) (timeouts c1),
                       reconnectTimeout := None\<rparr>);
          c3 = (case ws c2 of
                  None \<Rightarrow> c2
                | Some h \<Rightarrow> (ws_close h c2)\<lparr>ws := None\<rparr>)
      in c3\<lparr>subscriptions := []\<rparr>)"

definition onError :: "ErrorHandler \<Rightarrow> client \<Rightarrow> client" where
  "onError h c = c\<lparr>errorHandler := Some h\<rparr>"

text \<open>The callback of the reconnect timer: \<^verbatim>\<open>this.connect().catch(...)\<close>\<close>

definition reconnectTimer :: "host \<Rightarrow> client \<Rightarrow> client" where
  "reconnectTimer H c = connect H ByTimer c"

subsection \<open>Calls of the caller and events of the host\<close>

text \<open>
  What can happen to a client: the caller calls a public method or a closure that
  \<^verbatim>\<open>subscribe\<close> returned, or the host delivers an event of a socket or fires a timer.
  A socket opens only while it is connecting, closes once (after its \<^verbatim>\<open>error\<close> event when
  the connection failed), and delivers messages while it is open; a timer fires only
  while it is pending. An event that cannot happen leaves the client as it is.
\<close>

datatype action =
    Connect
  | Disconnect
  | OnError ErrorHandler
  | DoSubscribe string "string option" MessageHandler
  | DoUnsubscribe closure
  | WsOpen nat
  | WsClose nat bool bool
  | WsMessage nat string
  | TimerFire nat
  | PingFire nat

definition socketIn :: "client \<Rightarrow> nat \<Rightarrow> readyState set \<Rightarrow> bool" where
  "socketIn c h S = (h < length (sockets c) \<and> readyState (sockets c ! h) \<in> S)"

fun step :: "host \<Rightarrow> action \<Rightarrow> client \<Rightarrow> client" where
  "step H Connect c = connect H ByCaller c"
| "step H Disconnect c = disconnect c"
| "step H (OnError h) c = onError h c"
| "step H (DoSubscribe ch sy h) c = snd (subscribe ch sy h c)"
| "step H (DoUnsubscribe u) c = unsubscribe u c"
| "step H (WsOpen h) c =
     (if socketIn c h {CONNECTING}
      then onopen h (setSocket h (\<lambda>s. s\<lparr>readyState := OPEN\<rparr>) c) else c)"
| "step H (WsClose h wasClean failed) c =
     (if socketIn c h {CONNECTING, OPEN, CLOSING} then
        (let c1 = setSocket h (\<lambda>s. s\<lparr>readyState := CLOSED\<rparr>) c;
             c2 = (if failed then uncaught (onerror h c1) else c1)
         in uncaught (onclose H h wasClean c2))
      else c)"
| "step H (WsMessage h data) c =
     (if socketIn c h {OPEN} then uncaught (onmessage H h data c) else c)"
| "step H (TimerFire t) c =
     (if t \<in> fst ` set (timeouts c)
      then reconnectTimer H (c\<lparr>timeouts := filter (\<lambda>p. fst p \<noteq> t) (timeouts c)\<rparr>) else c)"
| "step H (PingFire i) c = (if i \<in> set (intervals c) then send Ping c else c)"

definition run :: "host \<Rightarrow> action list \<Rightarrow> client \<Rightarrow> client" where
  "run H acts c = foldl (\<lambda>c' a. step H a c') c acts"

section \<open>Observations and runs\<close>

text \<open>
  What a client has done so far, read off its trace: the calls of subscription callbacks,
  the calls of the error handler, the reconnection attempts scheduled with their delays,
  and the calls of the error handler with the error of exhausted retries.
\<close>

fun isHandlerCall :: "event \<Rightarrow> bool" where
  "isHandlerCall (HandlerCalled i v) = True"
| "isHandlerCall e = False"

definition handlerCalls :: "client \<Rightarrow> event list" where
  "handlerCalls c = filter isHandlerCall (trace c)"

fun isErrorReport :: "event \<Rightarrow> bool" where
  "isErrorReport (ErrorHandlerCalled i e) = True"
| "isErrorReport e = False"

definition errorReports :: "client \<Rightarrow> event list" where
  "errorReports c = filter isErrorReport (trace c)"

fun isTimeoutSet :: "event \<Rightarrow> bool" where
  "isTimeoutSet (TimeoutSet t d) = True"
| "isTimeoutSet e = False"

definition scheduled :: "client \<Rightarrow> event list" where
  "scheduled c = filter isTimeoutSet (trace c)"

fun delayOf :: "event \<Rightarrow> number list" where
  "delayOf (TimeoutSet t d) = [d]"
| "delayOf e = []"

definition delays :: "client \<Rightarrow> number list" where
  "delays c = concat (map delayOf (trace c))"

fun isExhausted :: "event \<Rightarrow> bool" where
  "isExhausted (ErrorHandlerCalled i e) = (e = Error ''Max reconnection attempts reached'')"
| "isExhausted e = False"

definition exhausted :: "client \<Rightarrow> event list" where
  "exhausted c = filter isExhausted (trace c)"


text \<open>The socket that is in use after \<open>n\<close> such rounds.\<close>

fun lastSocket :: "nat \<Rightarrow> nat \<Rightarrow> nat \<Rightarrow> nat" where
  "lastSocket h l 0 = h"
| "lastSocket h l (Suc n) = l + n"

text \<open>
  The state in which the socket \<open>h\<close> in use is about to be lost, after \<open>j\<close> attempts:
  reconnection is enabled, the constructors accept the URL, and no timer is pending.
\<close>

definition losing :: "host \<Rightarrow> client \<Rightarrow> nat \<Rightarrow> nat \<Rightarrow> bool" where
  "losing H c j h =
     (reconnect c \<and> reconnectAttempts c = j \<and> construct H (url c) = None \<and>
      ws c = Some h \<and> socketIn c h {CONNECTING, OPEN, CLOSING} \<and> timeouts c = [])"

text \<open>
  What reporting an error leaves as it is: every field that decides a later step, and the
  delays and exhausted retries observed.
\<close>

definition unchanged :: "client \<Rightarrow> client \<Rightarrow> bool" where
  "unchanged c c' =
     (reconnect c' = reconnect c \<and> reconnectAttempts c' = reconnectAttempts c \<and>
      url c' = url c \<and> ws c' = ws c \<and>
      map readyState (sockets c') = map readyState (sockets c) \<and>
      isConnecting c' = isConnecting c \<and> timeouts c' = timeouts c \<and>
      nextTimer c' = nextTimer c \<and> maxReconnectAttempts c' = maxReconnectAttempts c \<and>
      reconnectInterval c' = reconnectInterval c \<and> errorHandler c' = errorHandler c \<and>
      subscriptions c' = subscriptions c \<and> pingInterval c' = pingInterval c \<and>
      intervals c' = intervals c \<and> delays c' = delays c \<and> exhausted c' = exhausted c)"

section \<open>Example hosts, callbacks and clients\<close>

text \<open>
  An example host. It decodes four frames and its constructors succeed. Its product is the
  product of doubles without the rounding, the overflow and the sign of a zero result; its
  \<^verbatim>\<open>Math.pow\<close> is exact for a finite base and a natural exponent, the only case the
  examples use. At every value that the examples below evaluate (the products of 0, 5000
  and infinity with 1, 1.5 and 2.25) the doubles give the same.
\<close>

definition signOf :: "int \<times> rat \<Rightarrow> int" where
  "signOf p =
     (if fst p \<noteq> 0 then fst p else if 0 < snd p then 1 else if snd p < 0 then - 1 else 0)"

definition exactTimes :: "number \<Rightarrow> number \<Rightarrow> number" where
  "exactTimes a b =
     (case level a of
        None \<Rightarrow> NaN
      | Some p \<Rightarrow>
          (case level b of
             None \<Rightarrow> NaN
           | Some q \<Rightarrow>
               if fst p = 0 \<and> fst q = 0 then Fin (snd p * snd q)
               else if signOf p * signOf q = 0 then NaN
               else if 0 < signOf p * signOf q then PosInf
               else NegInf))"

fun exactPow :: "number \<Rightarrow> number \<Rightarrow> number" where
  "exactPow (Fin x) (Fin y) =
     (if 0 \<le> y \<and> of_int \<lfloor>y\<rfloor> = y then Fin (x ^ nat \<lfloor>y\<rfloor>) else NaN)"
| "exactPow a b = NaN"

definition btcMessage :: jsval where
  "btcMessage =
     JObj [(''channel'', JStr ''orderbook''), (''event'', JStr ''update''),
           (''data'', JObj [(''symbol'', JStr ''BTC-USDT''), (''bids'', JArr [])]),
           (''timestamp'', JStr ''0'')]"

definition demoHost :: host where
  "demoHost =
     \<lparr>JSON_parse = (\<lambda>s.
        if s = ''btc'' then Some btcMessage
        else if s = ''pong'' then Some (JObj [(''type'', JStr ''pong'')])
        else if s = ''orders'' then
          Some (JObj [(''channel'', JStr ''user.orders''), (''data'', JObj [(''id'', JStr ''7'')])])
        else if s = ''null'' then Some JNull
        else None),
      construct = (\<lambda>u. None), multiply = exactTimes, Math_pow = exactPow\<rparr>"

text \<open>
  Callbacks that return, that throw a string, and that throw an \<open>Error\<close>; an error
  handler that returns and one that throws the error it is given.
\<close>

definition quiet :: "nat \<Rightarrow> MessageHandler" where
  "quiet i = MessageHandler i (\<lambda>v. None)"

definition failing :: "nat \<Rightarrow> MessageHandler" where
  "failing i = MessageHandler i (\<lambda>v. Some (NonError (JStr ''refused'')))"

definition crashing :: "nat \<Rightarrow> MessageHandler" where
  "crashing i = MessageHandler i (\<lambda>v. Some (Instance (Error ''boom'')))"

definition logging :: ErrorHandler where
  "logging = ErrorHandler 100 (\<lambda>e. None)"

definition rethrowing :: ErrorHandler where
  "rethrowing = ErrorHandler 101 (\<lambda>e. Some (Instance e))"

text \<open>A client with the default options, before and after its first connection opened.\<close>

definition fresh :: client where
  "fresh = KlingExWebSocket ''wss://api.example/ws'' (Some ''key'', None)
     \<lparr>opt_reconnect = None, opt_reconnectInterval = None, opt_maxReconnectAttempts = None\<rparr>"

definition opened :: client where
  "opened = run demoHost [Connect, WsOpen 0] fresh"

text \<open>Connected clients with two order book subscriptions, and with an error handler.\<close>

definition subscribed :: client where
  "subscribed =
     snd (subscribe ''orderbook'' (Some ''ETH-USDT'') (quiet 2)
       (snd (subscribe ''orderbook'' (Some ''BTC-USDT'') (quiet 1) opened)))"

definition guarded :: client where
  "guarded = onError rethrowing opened"

definition noisy :: client where
  "noisy = snd (subscribe ''orderbook'' (Some ''BTC-USDT'') (failing 3) (onError logging opened))"

definition fragile :: client where
  "fragile = snd (subscribe ''orderbook'' (Some ''BTC-USDT'') (crashing 4) guarded)"

text \<open>
  Connected clients with a reconnect interval of zero, with an infinite one, and with at
  most three attempts.
\<close>

definition impatient :: client where
  "impatient = run demoHost [Connect, WsOpen 0]
     (KlingExWebSocket ''wss://api.example/ws'' (Some ''key'', None)
       \<lparr>opt_reconnect = None, opt_reconnectInterval = Some (Fin 0),
        opt_maxReconnectAttempts = None\<rparr>)"

definition endless :: client where
  "endless = run demoHost [Connect, WsOpen 0]
     (KlingExWebSocket ''wss://api.example/ws'' (Some ''key'', None)
       \<lparr>opt_reconnect = None, opt_reconnectInterval = Some PosInf,
        opt_maxReconnectAttempts = None\<rparr>)"

definition patient :: client where
  "patient = run demoHost [OnError logging, Connect, WsOpen 0]
     (KlingExWebSocket ''wss://api.example/ws'' (Some ''key'', None)
       \<lparr>opt_reconnect = None, opt_reconnectInterval = None,
        opt_maxReconnectAttempts = Some (Fin 3)\<rparr>)"

text \<open>
  A client that connected, disconnected and connected again, and then received the late
  \<open>close\<close> event of the socket it had discarded.
\<close>

definition racing :: client where
  "racing = run demoHost [Connect, WsOpen 0, Disconnect, Connect, WsClose 0 True False] fresh"

section \<open>Basic facts\<close>

lemma handlerCalls_emit [simp]:
  "handlerCalls (emit e c) = handlerCalls c @ (if isHandlerCall e then [e] else [])"
  by (simp add: handlerCalls_def emit_def)

lemma errorReports_emit [simp]:
  "errorReports (emit e c) = errorReports c @ (if isErrorReport e then [e] else [])"
  by (simp add: errorReports_def emit_def)

lemma handlerCalls_callErrorHandler [simp]:
  "handlerCalls (snd (callErrorHandler e c)) = handlerCalls c"
  by (simp add: callErrorHandler_def split: option.splits)

lemma handlerCalls_handleMessage:
  "handlerCalls (snd (handleMessage H raw c)) = handlerCalls (snd (handleMessage_try H raw c))"
  by (simp add: handleMessage_def split: prod.splits option.splits)

lemma try_decoded:
  assumes "JSON_parse H raw = Some msg" "\<not> nullish msg" "getProp msg ''type'' \<noteq> JStr ''pong''"
  shows "handleMessage_try H raw c =
     (case routingKey msg of
        None \<Rightarrow> (Some (Instance TypeError), c)
      | Some key \<Rightarrow>
          (case findSubscription c key (getProp msg ''channel'') of
             None \<Rightarrow> (None, c)
           | Some subscription \<Rightarrow>
               callHandler (handler subscription) (getProp msg ''data'') c))"
  using assms by (simp add: handleMessage_try_def)

lemma hasSymbol_object: "hasSymbol d \<Longrightarrow> truthy d \<and> typeofObject d"
  by (cases d) auto

lemma routingKey_symbol:
  "hasSymbol (getProp msg ''data'') \<Longrightarrow> toString (getProp msg ''channel'') = Some cs \<Longrightarrow>
   toString (getProp (getProp msg ''data'') ''symbol'') = Some ss \<Longrightarrow>
   routingKey msg = Some (JStr (cs @ '':'' @ ss))"
  by (simp add: routingKey_def hasSymbol_object)

lemma routingKey_channel:
  "\<not> hasSymbol (getProp msg ''data'') \<Longrightarrow> routingKey msg = Some (getProp msg ''channel'')"
  by (simp add: routingKey_def)

lemma wsOpen_subscriptions [simp]: "wsOpen (c\<lparr>subscriptions := x\<rparr>) = wsOpen c"
  by (simp add: wsOpen_def split: option.splits)

lemma wsOpen_emit [simp]: "wsOpen (emit e c) = wsOpen c"
  by (simp add: wsOpen_def emit_def split: option.splits)

lemma subscriptions_emit [simp]: "subscriptions (emit e c) = subscriptions c"
  by (simp add: emit_def)

lemma subscriptions_send [simp]: "subscriptions (send d c) = subscriptions c"
  by (simp add: send_def split: option.splits)

lemma handlerCalls_subscriptions [simp]: "handlerCalls (c\<lparr>subscriptions := x\<rparr>) = handlerCalls c"
  by (simp add: handlerCalls_def)

lemma handlerCalls_send [simp]: "handlerCalls (send d c) = handlerCalls c"
  by (simp add: send_def split: option.splits)

lemma subscriptions_subscribe:
  "map_of (subscriptions (snd (subscribe ch sy h c))) =
     (map_of (subscriptions c))(subscriptionKey ch sy \<mapsto> \<lparr>channel = ch, symbol = sy, handler = h\<rparr>)"
  by (simp add: subscribe_def Let_def sendSubscribe_def update_conv')

lemma handlerCalls_subscribe [simp]:
  "handlerCalls (snd (subscribe ch sy h c)) = handlerCalls c"
  by (simp add: subscribe_def Let_def sendSubscribe_def)

lemma fst_callErrorHandler:
  "fst (callErrorHandler e c) = (case errorHandler c of None \<Rightarrow> None | Some h \<Rightarrow> eh_run h e)"
  by (simp add: callErrorHandler_def split: option.splits)

lemma errorHandler_emit [simp]: "errorHandler (emit e c) = errorHandler c"
  by (simp add: emit_def)

lemma errorHandler_try [simp]: "errorHandler (snd (handleMessage_try H raw c)) = errorHandler c"
  by (simp add: handleMessage_try_def callHandler_def split: option.splits)

lemma handleMessage_throws:
  assumes "fst (handleMessage H raw c) = Some x"
  shows "\<exists>h e. errorHandler c = Some h \<and> eh_run h e = Some x"
proof -
  obtain r c' where t: "handleMessage_try H raw c = (r, c')" by (cases "handleMessage_try H raw c")
  then have e: "errorHandler c' = errorHandler c"
    using errorHandler_try [of H raw c] by simp
  show ?thesis
  proof (cases r)
    case None
    with t assms show ?thesis by (simp add: handleMessage_def)
  next
    case (Some err)
    with t assms e show ?thesis
      by (auto simp: handleMessage_def fst_callErrorHandler split: option.splits)
  qed
qed

lemma handleMessage_found:
  assumes "JSON_parse H raw = Some msg" "\<not> nullish msg" "getProp msg ''type'' \<noteq> JStr ''pong''"
    "routingKey msg = Some key"
    "findSubscription c key (getProp msg ''channel'') = Some sub"
  shows "handleMessage H raw c =
     (case mh_run (handler sub) (getProp msg ''data'') of
        None \<Rightarrow> (None, emit (HandlerCalled (mh_id (handler sub)) (getProp msg ''data'')) c)
      | Some x \<Rightarrow>
          callErrorHandler (asError ''Failed to parse message'' x)
            (emit (HandlerCalled (mh_id (handler sub)) (getProp msg ''data'')) c))"
  using assms by (simp add: handleMessage_def try_decoded callHandler_def split: option.splits)

lemma trace_emit [simp]: "trace (emit e c) = trace c @ [e]"
  by (simp add: emit_def)

lemma ws_emit [simp]: "ws (emit e c) = ws c"
  by (simp add: emit_def)

lemma unsubscribe_eq:
  "unsubscribe u c =
     (case ws c of
        None \<Rightarrow> c\<lparr>subscriptions := AList.delete (c_key u) (subscriptions c)\<rparr>
      | Some s \<Rightarrow>
          if wsOpen c
          then emit (Sent s (Unsubscribe (c_channel u) (c_symbol u)))
                 (c\<lparr>subscriptions := AList.delete (c_key u) (subscriptions c)\<rparr>)
          else c\<lparr>subscriptions := AList.delete (c_key u) (subscriptions c)\<rparr>)"
  by (simp add: unsubscribe_def Let_def sendUnsubscribe_def send_def wsOpen_def split: option.splits)

lemma wsOpen_unsubscribe [simp]: "wsOpen (unsubscribe u c) = wsOpen c"
  by (simp add: unsubscribe_eq split: option.splits)

lemma ws_unsubscribe [simp]: "ws (unsubscribe u c) = ws c"
  by (simp add: unsubscribe_eq split: option.splits)

lemma subscriptions_unsubscribe [simp]:
  "subscriptions (unsubscribe u c) = AList.delete (c_key u) (subscriptions c)"
  by (simp add: unsubscribe_eq split: option.splits)

lemma unsubscribe_fix:
  "(unsubscribe u c)\<lparr>subscriptions := AList.delete (c_key u) (subscriptions (unsubscribe u c))\<rparr>
     = unsubscribe u c"
  by (simp add: unsubscribe_eq emit_def delete_idem split: option.splits)

lemma unsubscribe_twice:
  "unsubscribe u (unsubscribe u c) =
     (case ws c of
        None \<Rightarrow> unsubscribe u c
      | Some s \<Rightarrow>
          if wsOpen c
          then emit (Sent s (Unsubscribe (c_channel u) (c_symbol u))) (unsubscribe u c)
          else unsubscribe u c)"
  by (subst unsubscribe_eq) (simp only: unsubscribe_fix ws_unsubscribe wsOpen_unsubscribe)

lemma closure_subscribe:
  "fst (subscribe ch sy h c) = \<lparr>c_key = subscriptionKey ch sy, c_channel = ch, c_symbol = sy\<rparr>"
  by (simp add: subscribe_def Let_def)

lemma trace_handleMessage_try:
  "\<exists>es. snd (handleMessage_try H raw c) = c\<lparr>trace := trace c @ es\<rparr> \<and>
        (\<forall>e\<in>set es. \<exists>k s v. map_of (subscriptions c) k = Some s \<and>
                       e = HandlerCalled (mh_id (handler s)) v)"
proof (cases "\<exists>msg key sub. JSON_parse H raw = Some msg \<and> \<not> nullish msg \<and>
    getProp msg ''type'' \<noteq> JStr ''pong'' \<and> routingKey msg = Some key \<and>
    findSubscription c key (getProp msg ''channel'') = Some sub")
  case True
  then obtain msg key sub where
    h: "JSON_parse H raw = Some msg" "\<not> nullish msg" "getProp msg ''type'' \<noteq> JStr ''pong''"
      "routingKey msg = Some key" "findSubscription c key (getProp msg ''channel'') = Some sub"
    by blast
  then have "\<exists>k. map_of (subscriptions c) k = Some sub"
    by (auto simp: findSubscription_def registryGet_def split: option.splits jsval.splits)
  then obtain k where k: "map_of (subscriptions c) k = Some sub" ..
  have "snd (handleMessage_try H raw c) =
      c\<lparr>trace := trace c @ [HandlerCalled (mh_id (handler sub)) (getProp msg ''data'')]\<rparr>"
    using h by (simp add: handleMessage_try_def callHandler_def emit_def)
  with k show ?thesis by (intro exI [of _ "[HandlerCalled (mh_id (handler sub)) (getProp msg ''data'')]"]) auto
next
  case False
  then have "snd (handleMessage_try H raw c) = c\<lparr>trace := trace c @ []\<rparr>"
    by (auto simp: handleMessage_try_def split: option.splits)
  then show ?thesis by (intro exI [of _ "[]"]) simp
qed

lemma trace_handleMessage:
  "\<exists>es. trace (snd (handleMessage H raw c)) = trace c @ es \<and>
        (\<forall>e\<in>set es. (\<exists>i x. e = ErrorHandlerCalled i x) \<or>
           (\<exists>k s v. map_of (subscriptions c) k = Some s \<and>
                       e = HandlerCalled (mh_id (handler s)) v))"
proof -
  obtain es where es: "snd (handleMessage_try H raw c) = c\<lparr>trace := trace c @ es\<rparr>"
    "\<forall>e\<in>set es. \<exists>k s v. map_of (subscriptions c) k = Some s \<and>
                       e = HandlerCalled (mh_id (handler s)) v"
    using trace_handleMessage_try [of H raw c] by blast
  obtain r c' where t: "handleMessage_try H raw c = (r, c')" by (cases "handleMessage_try H raw c")
  show ?thesis
  proof (cases "r = None \<or> errorHandler c' = None")
    case True
    with t es have "trace (snd (handleMessage H raw c)) = trace c @ es"
      by (auto simp: handleMessage_def callErrorHandler_def split: option.splits)
    with es(2) show ?thesis by blast
  next
    case False
    then obtain x h where "r = Some x" "errorHandler c' = Some h" by auto
    with t es have "trace (snd (handleMessage H raw c)) =
        trace c @ (es @ [ErrorHandlerCalled (eh_id h) (asError ''Failed to parse message'' x)])"
      by (auto simp: handleMessage_def callErrorHandler_def emit_def)
    moreover have "\<forall>e\<in>set (es @ [ErrorHandlerCalled (eh_id h) (asError ''Failed to parse message'' x)]).
       (\<exists>i x. e = ErrorHandlerCalled i x) \<or>
           (\<exists>k s v. map_of (subscriptions c) k = Some s \<and>
                       e = HandlerCalled (mh_id (handler s)) v)"
      using es(2) by auto
    ultimately show ?thesis by blast
  qed
qed

lemmas client_defs =
  connect_def disconnect_def onopen_def onclose_def onerror_def onmessage_def onError_def
  subscribe_def unsubscribe_def sendSubscribe_def sendUnsubscribe_def send_def wsOpen_def
  resubscribeAll_def startPingInterval_def stopPingInterval_def scheduleReconnect_def
  reconnectDelay_def callErrorHandler_def asError_def uncaught_def setSocket_def rejected_def resolve_def
  reject_def authParam_def ws_close_def reconnectTimer_def socketIn_def run_def emit_def
  subscriptionKey_def KlingExWebSocket_def Let_def

lemma opened_eq:
  "opened =
     \<lparr>ws = Some 0, url = ''wss://api.example/ws'', apiKey = Some ''key'', jwt = None,
      reconnect = True, reconnectInterval = Fin 5000, maxReconnectAttempts = Fin 10,
      subscriptions = [], reconnectAttempts = 0, reconnectTimeout = None,
      pingInterval = Some 1, isConnecting = False, errorHandler = None,
      sockets = [\<lparr>readyState = OPEN,
                  target = (''wss://api.example/ws'', Some (ApiKeyParam ''key'')),
                  promise = Settled\<rparr>],
      timeouts = [], intervals = [1], nextTimer = 2, trace = []\<rparr>"
  by (simp add: opened_def fresh_def demoHost_def client_defs)

lemma subscribed_eq:
  "subscribed = opened
     \<lparr>subscriptions :=
        [(''orderbook:BTC-USDT'',
          \<lparr>channel = ''orderbook'', symbol = Some ''BTC-USDT'', handler = quiet 1\<rparr>),
         (''orderbook:ETH-USDT'',
          \<lparr>channel = ''orderbook'', symbol = Some ''ETH-USDT'', handler = quiet 2\<rparr>)],
      trace := [Sent 0 (Subscribe ''orderbook'' (Some ''BTC-USDT'')),
                Sent 0 (Subscribe ''orderbook'' (Some ''ETH-USDT''))]\<rparr>"
  by (simp add: subscribed_def opened_eq client_defs)

section \<open>The message router\<close>

text \<open>
  Claim C1. For a decoded data message, the routing key is the channel, a colon and
  \<open>data.symbol\<close> (each converted to a string as the template literal does) when the data
  object has a \<open>symbol\<close> field, and the bare channel otherwise. The registry is read first
  under that key and then under the bare channel, and the one subscription found, if any,
  is the only one whose callback is called. So after \<open>subscribe("orderbook", "BTC-USDT", cb)\<close>
  and \<open>subscribe("orderbook", "ETH-USDT", cb2)\<close>, a message of channel \<open>orderbook\<close> with
  \<open>data.symbol = "BTC-USDT"\<close> makes exactly one call, of \<open>cb\<close>.
\<close>

theorem handleMessage_routing:
  assumes "JSON_parse H raw = Some msg" and "\<not> nullish msg"
    and "getProp msg ''type'' \<noteq> JStr ''pong''"
    and "toString (getProp msg ''channel'') = Some cs"
  shows "(hasSymbol (getProp msg ''data'')
            \<and> toString (getProp (getProp msg ''data'') ''symbol'') = Some ss \<longrightarrow>
          routingKey msg = Some (JStr (cs @ '':'' @ ss)) \<and>
          handlerCalls (snd (handleMessage H raw c)) = handlerCalls c @
            (case map_of (subscriptions c) (cs @ '':'' @ ss) of
               Some sub \<Rightarrow> [HandlerCalled (mh_id (handler sub)) (getProp msg ''data'')]
             | None \<Rightarrow>
                 (case registryGet c (getProp msg ''channel'') of
                    Some sub \<Rightarrow> [HandlerCalled (mh_id (handler sub)) (getProp msg ''data'')]
                  | None \<Rightarrow> [])))
       \<and> (\<not> hasSymbol (getProp msg ''data'') \<longrightarrow>
          routingKey msg = Some (getProp msg ''channel'') \<and>
          handlerCalls (snd (handleMessage H raw c)) = handlerCalls c @
            (case registryGet c (getProp msg ''channel'') of
               Some sub \<Rightarrow> [HandlerCalled (mh_id (handler sub)) (getProp msg ''data'')]
             | None \<Rightarrow> []))
       \<and> (getProp msg ''channel'' = JStr ''orderbook''
            \<and> hasSymbol (getProp msg ''data'')
            \<and> getProp (getProp msg ''data'') ''symbol'' = JStr ''BTC-USDT''
            \<and> c = snd (subscribe ''orderbook'' (Some ''ETH-USDT'') cb2
                       (snd (subscribe ''orderbook'' (Some ''BTC-USDT'') cb c0))) \<longrightarrow>
          handlerCalls (snd (handleMessage H raw c)) =
            handlerCalls c @ [HandlerCalled (mh_id cb) (getProp msg ''data'')])"
proof (intro conjI impI)
  assume a: "hasSymbol (getProp msg ''data'')
            \<and> toString (getProp (getProp msg ''data'') ''symbol'') = Some ss"
  then show "routingKey msg = Some (JStr (cs @ '':'' @ ss))"
    using assms(4) by (simp add: routingKey_symbol)
  then show "handlerCalls (snd (handleMessage H raw c)) = handlerCalls c @
            (case map_of (subscriptions c) (cs @ '':'' @ ss) of
               Some sub \<Rightarrow> [HandlerCalled (mh_id (handler sub)) (getProp msg ''data'')]
             | None \<Rightarrow>
                 (case registryGet c (getProp msg ''channel'') of
                    Some sub \<Rightarrow> [HandlerCalled (mh_id (handler sub)) (getProp msg ''data'')]
                  | None \<Rightarrow> []))"
    using assms(1-3)
    by (simp add: handlerCalls_handleMessage try_decoded findSubscription_def registryGet_def
        callHandler_def split: option.splits)
next
  assume a: "\<not> hasSymbol (getProp msg ''data'')"
  then show "routingKey msg = Some (getProp msg ''channel'')"
    by (simp add: routingKey_channel)
  then show "handlerCalls (snd (handleMessage H raw c)) = handlerCalls c @
            (case registryGet c (getProp msg ''channel'') of
               Some sub \<Rightarrow> [HandlerCalled (mh_id (handler sub)) (getProp msg ''data'')]
             | None \<Rightarrow> [])"
    using assms(1-3)
    by (simp add: handlerCalls_handleMessage try_decoded findSubscription_def
        callHandler_def split: option.splits)
next
  assume a: "getProp msg ''channel'' = JStr ''orderbook''
            \<and> hasSymbol (getProp msg ''data'')
            \<and> getProp (getProp msg ''data'') ''symbol'' = JStr ''BTC-USDT''
            \<and> c = snd (subscribe ''orderbook'' (Some ''ETH-USDT'') cb2
                       (snd (subscribe ''orderbook'' (Some ''BTC-USDT'') cb c0)))"
  then have k: "routingKey msg = Some (JStr ''orderbook:BTC-USDT'')"
    by (simp add: routingKey_symbol)
  have "map_of (subscriptions c) ''orderbook:BTC-USDT'' =
          Some \<lparr>channel = ''orderbook'', symbol = Some ''BTC-USDT'', handler = cb\<rparr>"
    using a by (simp add: subscriptions_subscribe subscriptionKey_def)
  then show "handlerCalls (snd (handleMessage H raw c)) =
            handlerCalls c @ [HandlerCalled (mh_id cb) (getProp msg ''data'')]"
    using assms(1-3) k
    by (simp add: handlerCalls_handleMessage try_decoded findSubscription_def registryGet_def
        callHandler_def)
qed

theorem handleMessage_routing_witness:
  "handlerCalls (snd (handleMessage demoHost ''btc''
      (snd (subscribe ''orderbook'' (Some ''ETH-USDT'') (quiet 2)
        (snd (subscribe ''orderbook'' (Some ''BTC-USDT'') (quiet 1) opened)))))) =
   [HandlerCalled 1 (JObj [(''symbol'', JStr ''BTC-USDT''), (''bids'', JArr [])])]"
proof -
  let ?c = "snd (subscribe ''orderbook'' (Some ''ETH-USDT'') (quiet 2)
        (snd (subscribe ''orderbook'' (Some ''BTC-USDT'') (quiet 1) opened)))"
  have p: "JSON_parse demoHost ''btc'' = Some btcMessage" by (simp add: demoHost_def)
  have n: "\<not> nullish btcMessage" by (simp add: nullish_def btcMessage_def)
  have t: "getProp btcMessage ''type'' \<noteq> JStr ''pong''" by (simp add: btcMessage_def)
  have s: "toString (getProp btcMessage ''channel'') = Some ''orderbook''"
    by (simp add: btcMessage_def)
  have o: "handlerCalls opened = []"
    by (simp add: opened_def run_def fresh_def KlingExWebSocket_def handlerCalls_def
        connect_def wsOpen_def authParam_def demoHost_def socketIn_def setSocket_def onopen_def
        startPingInterval_def resubscribeAll_def resolve_def)
  have "getProp btcMessage ''channel'' = JStr ''orderbook''
            \<and> hasSymbol (getProp btcMessage ''data'')
            \<and> getProp (getProp btcMessage ''data'') ''symbol'' = JStr ''BTC-USDT''
            \<and> ?c = ?c"
    by (simp add: btcMessage_def)
  with handleMessage_routing [OF p n t s, of "''BTC-USDT''" ?c "quiet 2" "quiet 1" opened]
  have "handlerCalls (snd (handleMessage demoHost ''btc'' ?c)) =
            handlerCalls ?c @ [HandlerCalled (mh_id (quiet 1)) (getProp btcMessage ''data'')]"
    by blast
  then show ?thesis
    using o by (simp add: btcMessage_def quiet_def)
qed

text \<open>
  Claim C7, as amended. What \<open>handleMessage\<close> throws to its caller is only what the
  registered error handler throws when it is called from the \<open>catch\<close> block; with no such
  handler, or one that returns, nothing is thrown. A frame that does not parse is reported
  to the error handler and to nothing else; a frame of type \<open>pong\<close> changes nothing; a
  routed message calls the stored callback with \<open>message.data\<close>; a message that finds no
  entry changes nothing: no call and no error.
\<close>

theorem handleMessage_throws_only_from_errorHandler:
  "(fst (handleMessage H raw c) = Some x \<longrightarrow>
      (\<exists>h e. errorHandler c = Some h \<and> eh_run h e = Some x))
   \<and> (JSON_parse H raw = None \<longrightarrow>
        handleMessage H raw c = callErrorHandler SyntaxError c)
   \<and> (JSON_parse H raw = Some msg \<and> \<not> nullish msg \<and> getProp msg ''type'' = JStr ''pong'' \<longrightarrow>
        handleMessage H raw c = (None, c))
   \<and> (JSON_parse H raw = Some msg \<and> \<not> nullish msg \<and> getProp msg ''type'' \<noteq> JStr ''pong''
        \<and> routingKey msg = Some key
        \<and> findSubscription c key (getProp msg ''channel'') = Some sub
        \<and> mh_run (handler sub) (getProp msg ''data'') = None \<longrightarrow>
        handleMessage H raw c =
          (None, emit (HandlerCalled (mh_id (handler sub)) (getProp msg ''data'')) c))
   \<and> (JSON_parse H raw = Some msg \<and> \<not> nullish msg \<and> getProp msg ''type'' \<noteq> JStr ''pong''
        \<and> routingKey msg = Some key
        \<and> findSubscription c key (getProp msg ''channel'') = None \<longrightarrow>
        handleMessage H raw c = (None, c))"
proof (intro conjI impI)
  assume "fst (handleMessage H raw c) = Some x"
  then show "\<exists>h e. errorHandler c = Some h \<and> eh_run h e = Some x"
    by (rule handleMessage_throws)
next
  assume "JSON_parse H raw = None"
  then show "handleMessage H raw c = callErrorHandler SyntaxError c"
    by (simp add: handleMessage_def handleMessage_try_def asError_def)
next
  assume "JSON_parse H raw = Some msg \<and> \<not> nullish msg \<and> getProp msg ''type'' = JStr ''pong''"
  then show "handleMessage H raw c = (None, c)"
    by (simp add: handleMessage_def handleMessage_try_def)
next
  assume "JSON_parse H raw = Some msg \<and> \<not> nullish msg \<and> getProp msg ''type'' \<noteq> JStr ''pong''
        \<and> routingKey msg = Some key
        \<and> findSubscription c key (getProp msg ''channel'') = Some sub
        \<and> mh_run (handler sub) (getProp msg ''data'') = None"
  then show "handleMessage H raw c =
          (None, emit (HandlerCalled (mh_id (handler sub)) (getProp msg ''data'')) c)"
    by (simp add: handleMessage_found)
next
  assume "JSON_parse H raw = Some msg \<and> \<not> nullish msg \<and> getProp msg ''type'' \<noteq> JStr ''pong''
        \<and> routingKey msg = Some key
        \<and> findSubscription c key (getProp msg ''channel'') = None"
  then show "handleMessage H raw c = (None, c)"
    by (simp add: handleMessage_def try_decoded)
qed

text \<open>
  Claim C7 as stated fails: with an error handler that throws what it is given, a frame
  that does not parse makes \<open>handleMessage\<close> throw the \<open>SyntaxError\<close> to its caller.
\<close>

theorem handleMessage_throws_counterexample:
  "fst (handleMessage demoHost ''{'' guarded) = Some (Instance SyntaxError)"
  by (simp add: handleMessage_def handleMessage_try_def demoHost_def guarded_def onError_def
      callErrorHandler_def asError_def rethrowing_def)

theorem handleMessage_throws_only_from_errorHandler_witness:
  "handleMessage demoHost ''{'' (onError logging opened) =
     (None, emit (ErrorHandlerCalled 100 SyntaxError) (onError logging opened))
   \<and> handleMessage demoHost ''pong'' subscribed = (None, subscribed)
   \<and> handleMessage demoHost ''btc'' subscribed =
       (None, emit (HandlerCalled 1
          (JObj [(''symbol'', JStr ''BTC-USDT''), (''bids'', JArr [])])) subscribed)
   \<and> handleMessage demoHost ''orders'' subscribed = (None, subscribed)
   \<and> (\<exists>h e. errorHandler guarded = Some h \<and> eh_run h e = Some (Instance SyntaxError))"
proof -
  have 1: "handleMessage demoHost ''{'' (onError logging opened) =
     (None, emit (ErrorHandlerCalled 100 SyntaxError) (onError logging opened))"
    using handleMessage_throws_only_from_errorHandler [of demoHost "''{''" "onError logging opened"]
    by (simp add: demoHost_def callErrorHandler_def onError_def logging_def)
  have 2: "handleMessage demoHost ''pong'' subscribed = (None, subscribed)"
    using handleMessage_throws_only_from_errorHandler [of demoHost "''pong''" subscribed _ "JObj [(''type'', JStr ''pong'')]"]
    by (simp add: demoHost_def nullish_def)
  have m: "JSON_parse demoHost ''btc'' = Some btcMessage" "\<not> nullish btcMessage"
   "getProp btcMessage ''type'' \<noteq> JStr ''pong''"
   "routingKey btcMessage = Some (JStr ''orderbook:BTC-USDT'')"
   "getProp btcMessage ''data'' = JObj [(''symbol'', JStr ''BTC-USDT''), (''bids'', JArr [])]"
    by (simp_all add: demoHost_def nullish_def btcMessage_def routingKey_def)
  have f: "findSubscription subscribed (JStr ''orderbook:BTC-USDT'') (getProp btcMessage ''channel'')
     = Some \<lparr>channel = ''orderbook'', symbol = Some ''BTC-USDT'', handler = quiet 1\<rparr>"
    by (simp add: findSubscription_def registryGet_def subscribed_eq)
  have 3: "handleMessage demoHost ''btc'' subscribed =
       (None, emit (HandlerCalled 1
          (JObj [(''symbol'', JStr ''BTC-USDT''), (''bids'', JArr [])])) subscribed)"
    using handleMessage_throws_only_from_errorHandler [of demoHost "''btc''" subscribed _ btcMessage "JStr ''orderbook:BTC-USDT''"
        "\<lparr>channel = ''orderbook'', symbol = Some ''BTC-USDT'', handler = quiet 1\<rparr>"] m f
    by (simp add: quiet_def)
  let ?o = "JObj [(''channel'', JStr ''user.orders''), (''data'', JObj [(''id'', JStr ''7'')])]"
  have o: "JSON_parse demoHost ''orders'' = Some ?o" "\<not> nullish ?o"
   "getProp ?o ''type'' \<noteq> JStr ''pong''"
   "routingKey ?o = Some (JStr ''user.orders'')"
    by (simp_all add: demoHost_def nullish_def routingKey_def)
  have g: "findSubscription subscribed (JStr ''user.orders'') (getProp ?o ''channel'') = None"
    by (simp add: findSubscription_def registryGet_def subscribed_eq)
  have 4: "handleMessage demoHost ''orders'' subscribed = (None, subscribed)"
    using handleMessage_throws_only_from_errorHandler [of demoHost "''orders''" subscribed _ ?o "JStr ''user.orders''"] o g
    by simp
  have "fst (handleMessage demoHost ''{'' guarded) = Some (Instance SyntaxError)"
    by (simp add: handleMessage_def handleMessage_try_def demoHost_def guarded_def onError_def
        callErrorHandler_def asError_def rethrowing_def)
  with handleMessage_throws_only_from_errorHandler [of demoHost "''{''" guarded "Instance SyntaxError"]
  have 5: "\<exists>h e. errorHandler guarded = Some h \<and> eh_run h e = Some (Instance SyntaxError)"
    by blast
  from 1 2 3 4 5 show ?thesis by blast
qed

text \<open>
  Claim C10, as amended. The call of the callback is inside the \<open>try\<close> block: when the
  callback of the subscription found throws \<open>x\<close>, \<open>handleMessage\<close> completes as the call
  of the error handler on \<open>x\<close> (wrapped when it is no instance of \<open>Error\<close>) does. With no
  handler it returns and \<open>x\<close> is swallowed; with a handler, the handler is called once
  with that error, and \<open>handleMessage\<close> throws only if the handler does. A callback that
  throws what the decoder throws gives the same report and the same completion as a frame
  that does not parse.
\<close>

theorem callback_exception_reaches_errorHandler:
  assumes "JSON_parse H raw = Some msg" and "\<not> nullish msg"
    and "getProp msg ''type'' \<noteq> JStr ''pong''"
    and "routingKey msg = Some key"
    and "findSubscription c key (getProp msg ''channel'') = Some sub"
    and "mh_run (handler sub) (getProp msg ''data'') = Some x"
  shows "handleMessage H raw c =
           callErrorHandler (asError ''Failed to parse message'' x)
             (emit (HandlerCalled (mh_id (handler sub)) (getProp msg ''data'')) c)
       \<and> (errorHandler c = None \<longrightarrow>
            handleMessage H raw c =
              (None, emit (HandlerCalled (mh_id (handler sub)) (getProp msg ''data'')) c))
       \<and> (\<forall>h. errorHandler c = Some h \<longrightarrow>
            fst (handleMessage H raw c) =
              eh_run h (asError ''Failed to parse message'' x)
            \<and> errorReports (snd (handleMessage H raw c)) = errorReports c @
                 [ErrorHandlerCalled (eh_id h) (asError ''Failed to parse message'' x)])
       \<and> (\<forall>raw'. JSON_parse H raw' = None \<and> x = Instance SyntaxError \<longrightarrow>
            fst (handleMessage H raw c) = fst (handleMessage H raw' c)
            \<and> errorReports (snd (handleMessage H raw c)) =
                errorReports (snd (handleMessage H raw' c)))"
proof -
  let ?c = "emit (HandlerCalled (mh_id (handler sub)) (getProp msg ''data'')) c"
  have m: "handleMessage H raw c = callErrorHandler (asError ''Failed to parse message'' x) ?c"
    using assms by (simp add: handleMessage_found)
  have d: "JSON_parse H raw' = None \<Longrightarrow> handleMessage H raw' c = callErrorHandler SyntaxError c"
    for raw'
    by (simp add: handleMessage_def handleMessage_try_def asError_def)
  show ?thesis
    unfolding m
    by (auto simp: d callErrorHandler_def asError_def split: option.splits)
qed

text \<open>
  Claim C10 as stated fails: with an error handler that throws the error it is given, the
  \<open>Error\<close> that a callback throws leaves \<open>handleMessage\<close>.
\<close>

theorem callback_exception_rethrown_counterexample:
  "fst (handleMessage demoHost ''btc'' fragile) = Some (Instance (Error ''boom''))"
proof -
  have f: "fragile = opened
     \<lparr>subscriptions :=
        [(''orderbook:BTC-USDT'',
          \<lparr>channel = ''orderbook'', symbol = Some ''BTC-USDT'', handler = crashing 4\<rparr>)],
      errorHandler := Some rethrowing,
      trace := [Sent 0 (Subscribe ''orderbook'' (Some ''BTC-USDT''))]\<rparr>"
    by (simp add: fragile_def guarded_def opened_eq client_defs)
  show ?thesis
    by (simp add: f handleMessage_def handleMessage_try_def demoHost_def btcMessage_def
        nullish_def routingKey_def findSubscription_def registryGet_def callHandler_def
        callErrorHandler_def asError_def rethrowing_def crashing_def)
qed

theorem callback_exception_reaches_errorHandler_witness:
  "handleMessage demoHost ''btc'' noisy =
     (None, emit (ErrorHandlerCalled 100 (Error ''Failed to parse message''))
        (emit (HandlerCalled 3 (JObj [(''symbol'', JStr ''BTC-USDT''), (''bids'', JArr [])]))
           noisy))"
proof -
  have m: "JSON_parse demoHost ''btc'' = Some btcMessage" "\<not> nullish btcMessage"
   "getProp btcMessage ''type'' \<noteq> JStr ''pong''"
   "routingKey btcMessage = Some (JStr ''orderbook:BTC-USDT'')"
    by (simp_all add: demoHost_def nullish_def btcMessage_def routingKey_def)
  have f: "findSubscription noisy (JStr ''orderbook:BTC-USDT'') (getProp btcMessage ''channel'')
     = Some \<lparr>channel = ''orderbook'', symbol = Some ''BTC-USDT'', handler = failing 3\<rparr>"
    by (simp add: findSubscription_def registryGet_def noisy_def opened_eq client_defs)
  have r: "mh_run (handler \<lparr>channel = ''orderbook'', symbol = Some ''BTC-USDT'', handler = failing 3\<rparr>)
     (getProp btcMessage ''data'') = Some (NonError (JStr ''refused''))"
    by (simp add: failing_def)
  have e: "errorHandler noisy = Some logging"
    by (simp add: noisy_def opened_eq client_defs)
  show ?thesis
    using callback_exception_reaches_errorHandler [OF m f r] e
    by (simp add: callErrorHandler_def asError_def logging_def failing_def btcMessage_def)
qed

section \<open>The registry\<close>

text \<open>
  Claim C2, as amended. The closure that \<open>subscribe\<close> returned holds the key of its
  subscription. Calling it in any later state \<open>c\<close> removes the entry under that key and
  leaves the others; it sends one \<open>unsubscribe\<close> message when the transport is open and
  none otherwise; afterwards no frame makes \<open>handleMessage\<close> call the callback, unless it
  is also registered under another key. A second call leaves the registry as it is, and it
  is a no-op only when the transport is not open: when it is open, the second call sends a
  second \<open>unsubscribe\<close> message.
\<close>

theorem unsubscribe_closure:
  assumes "subscribe ch sy h c0 = (u, c1)"
  shows "c_key u = subscriptionKey ch sy
     \<and> map_of (subscriptions c1) (c_key u) = Some \<lparr>channel = ch, symbol = sy, handler = h\<rparr>
     \<and> map_of (subscriptions (unsubscribe u c)) = (map_of (subscriptions c))(c_key u := None)
     \<and> (wsOpen c \<longrightarrow>
          (\<exists>s. ws c = Some s \<and> trace (unsubscribe u c) = trace c @ [Sent s (Unsubscribe ch sy)]))
     \<and> (\<not> wsOpen c \<longrightarrow> trace (unsubscribe u c) = trace c)
     \<and> ((\<forall>k s. map_of (subscriptions c) k = Some s \<and> k \<noteq> c_key u \<longrightarrow>
              mh_id (handler s) \<noteq> mh_id h) \<longrightarrow>
          (\<forall>H raw. \<exists>es. trace (snd (handleMessage H raw (unsubscribe u c))) =
                            trace (unsubscribe u c) @ es
                        \<and> (\<forall>v. HandlerCalled (mh_id h) v \<notin> set es)))
     \<and> subscriptions (unsubscribe u (unsubscribe u c)) = subscriptions (unsubscribe u c)
     \<and> (\<not> wsOpen c \<longrightarrow> unsubscribe u (unsubscribe u c) = unsubscribe u c)
     \<and> (wsOpen c \<longrightarrow>
          (\<exists>s. ws c = Some s \<and>
             unsubscribe u (unsubscribe u c) =
               emit (Sent s (Unsubscribe ch sy)) (unsubscribe u c)))"
proof -
  have u: "u = \<lparr>c_key = subscriptionKey ch sy, c_channel = ch, c_symbol = sy\<rparr>"
    using assms closure_subscribe [of ch sy h c0] by simp
  have c1: "c1 = snd (subscribe ch sy h c0)" using assms by simp
  have dd: "AList.delete k (AList.delete k xs) = AList.delete k xs" for k :: string and xs :: "(string \<times> Subscription) list"
    by (simp add: delete_idem)
  have a: "c_key u = subscriptionKey ch sy" by (simp add: u)
  have b: "map_of (subscriptions c1) (c_key u) = Some \<lparr>channel = ch, symbol = sy, handler = h\<rparr>"
    by (simp add: c1 u subscribe_def Let_def sendSubscribe_def update_conv')
  have d: "map_of (subscriptions (unsubscribe u c)) = (map_of (subscriptions c))(c_key u := None)"
    by (simp add: delete_conv')
  have e: "wsOpen c \<longrightarrow>
          (\<exists>s. ws c = Some s \<and> trace (unsubscribe u c) = trace c @ [Sent s (Unsubscribe ch sy)])"
    by (auto simp: unsubscribe_eq u wsOpen_def split: option.splits)
  have f: "\<not> wsOpen c \<longrightarrow> trace (unsubscribe u c) = trace c"
    by (auto simp: unsubscribe_eq split: option.splits)
  have g: "(\<forall>k s. map_of (subscriptions c) k = Some s \<and> k \<noteq> c_key u \<longrightarrow>
              mh_id (handler s) \<noteq> mh_id h) \<longrightarrow>
          (\<forall>H raw. \<exists>es. trace (snd (handleMessage H raw (unsubscribe u c))) =
                            trace (unsubscribe u c) @ es
                        \<and> (\<forall>v. HandlerCalled (mh_id h) v \<notin> set es))"
  proof (intro impI allI)
    fix H raw
    assume o: "\<forall>k s. map_of (subscriptions c) k = Some s \<and> k \<noteq> c_key u \<longrightarrow>
              mh_id (handler s) \<noteq> mh_id h"
    obtain es where es: "trace (snd (handleMessage H raw (unsubscribe u c))) =
         trace (unsubscribe u c) @ es"
      "\<forall>e\<in>set es. (\<exists>i x. e = ErrorHandlerCalled i x) \<or>
           (\<exists>k s v. map_of (subscriptions (unsubscribe u c)) k = Some s \<and>
                       e = HandlerCalled (mh_id (handler s)) v)"
      using trace_handleMessage [of H raw "unsubscribe u c"] by blast
    have "HandlerCalled (mh_id h) v \<notin> set es" for v
    proof
      assume "HandlerCalled (mh_id h) v \<in> set es"
      with es(2) obtain k s where "map_of (subscriptions (unsubscribe u c)) k = Some s"
        "mh_id (handler s) = mh_id h" by fastforce
      then have "map_of (subscriptions c) k = Some s \<and> k \<noteq> c_key u"
        by (auto simp: delete_conv split: if_splits)
      with o \<open>mh_id (handler s) = mh_id h\<close> show False by blast
    qed
    with es(1) show "\<exists>es. trace (snd (handleMessage H raw (unsubscribe u c))) =
                            trace (unsubscribe u c) @ es
                        \<and> (\<forall>v. HandlerCalled (mh_id h) v \<notin> set es)" by blast
  qed
  have i: "subscriptions (unsubscribe u (unsubscribe u c)) = subscriptions (unsubscribe u c)"
    by (simp add: dd)
  have j: "\<not> wsOpen c \<longrightarrow> unsubscribe u (unsubscribe u c) = unsubscribe u c"
    by (auto simp: unsubscribe_twice wsOpen_def split: option.splits)
  have k: "wsOpen c \<longrightarrow>
          (\<exists>s. ws c = Some s \<and>
             unsubscribe u (unsubscribe u c) =
               emit (Sent s (Unsubscribe ch sy)) (unsubscribe u c))"
    by (auto simp: unsubscribe_twice u wsOpen_def [of c] split: option.splits)
  from a b d e f g i j k show ?thesis by blast
qed

text \<open>
  Claim C2 as stated fails: on an open transport, calling the closure twice sends the
  \<open>unsubscribe\<close> message twice, so the second call is no no-op.
\<close>

theorem unsubscribe_twice_counterexample:
  "trace (unsubscribe (fst (subscribe ''ticker'' (Some ''BTC-USDT'') (quiet 1) opened))
           (unsubscribe (fst (subscribe ''ticker'' (Some ''BTC-USDT'') (quiet 1) opened))
             (snd (subscribe ''ticker'' (Some ''BTC-USDT'') (quiet 1) opened)))) =
     [Sent 0 (Subscribe ''ticker'' (Some ''BTC-USDT'')),
      Sent 0 (Unsubscribe ''ticker'' (Some ''BTC-USDT'')),
      Sent 0 (Unsubscribe ''ticker'' (Some ''BTC-USDT''))]"
  by (simp add: opened_eq client_defs)

theorem unsubscribe_closure_witness:
  "trace (unsubscribe (fst (subscribe ''ticker'' (Some ''BTC-USDT'') (quiet 1) opened)) subscribed) =
     trace subscribed @ [Sent 0 (Unsubscribe ''ticker'' (Some ''BTC-USDT''))]
   \<and> (\<exists>es. trace (snd (handleMessage demoHost ''btc''
              (unsubscribe (fst (subscribe ''orderbook'' (Some ''BTC-USDT'') (quiet 1) opened))
                 subscribed))) =
            trace (unsubscribe (fst (subscribe ''orderbook'' (Some ''BTC-USDT'') (quiet 1) opened))
                 subscribed) @ es
          \<and> (\<forall>v. HandlerCalled 1 v \<notin> set es))"
proof -
  have o: "wsOpen subscribed" "ws subscribed = Some 0"
    by (simp_all add: subscribed_eq opened_eq wsOpen_def)
  from unsubscribe_closure [OF prod.collapse [symmetric], of "''ticker''" "Some ''BTC-USDT''" "quiet 1" opened
      subscribed] o
  have a: "trace (unsubscribe (fst (subscribe ''ticker'' (Some ''BTC-USDT'') (quiet 1) opened))
       subscribed) = trace subscribed @ [Sent 0 (Unsubscribe ''ticker'' (Some ''BTC-USDT''))]"
    by auto
  have k: "\<forall>k s. map_of (subscriptions subscribed) k = Some s \<and>
      k \<noteq> c_key (fst (subscribe ''orderbook'' (Some ''BTC-USDT'') (quiet 1) opened)) \<longrightarrow>
      mh_id (handler s) \<noteq> mh_id (quiet 1)"
    by (simp add: subscribed_eq closure_subscribe subscriptionKey_def quiet_def)
  from unsubscribe_closure [OF prod.collapse [symmetric], of "''orderbook''" "Some ''BTC-USDT''" "quiet 1" opened
      subscribed] k
  have "\<forall>H raw. \<exists>es. trace (snd (handleMessage H raw
              (unsubscribe (fst (subscribe ''orderbook'' (Some ''BTC-USDT'') (quiet 1) opened))
                 subscribed))) =
            trace (unsubscribe (fst (subscribe ''orderbook'' (Some ''BTC-USDT'') (quiet 1) opened))
                 subscribed) @ es
          \<and> (\<forall>v. HandlerCalled (mh_id (quiet 1)) v \<notin> set es)"
    by blast
  then have "\<exists>es. trace (snd (handleMessage demoHost ''btc''
              (unsubscribe (fst (subscribe ''orderbook'' (Some ''BTC-USDT'') (quiet 1) opened))
                 subscribed))) =
            trace (unsubscribe (fst (subscribe ''orderbook'' (Some ''BTC-USDT'') (quiet 1) opened))
                 subscribed) @ es
          \<and> (\<forall>v. HandlerCalled 1 v \<notin> set es)"
    by (simp add: quiet_def)
  with a show ?thesis by blast
qed

text \<open>
  Claim C9. The closure is the same whatever callback and state \<open>subscribe\<close> was called
  with: it holds the key, the channel and the symbol only. When a subscription is registered
  under the key of an older closure, in any later state, calling the older closure removes
  that newer subscription.
\<close>

theorem stale_closure_removes_newer:
  assumes "subscribe ch sy h1 c0 = (u1, c1)"
    and "subscribe ch' sy' h2 c = (u2, c2)"
    and "subscriptionKey ch' sy' = subscriptionKey ch sy"
  shows "c_key u1 = c_key u2
     \<and> u1 = fst (subscribe ch sy h2 c)
     \<and> map_of (subscriptions c2) (c_key u1) = Some \<lparr>channel = ch', symbol = sy', handler = h2\<rparr>
     \<and> map_of (subscriptions (unsubscribe u1 c2)) (c_key u1) = None"
proof -
  have u1: "u1 = \<lparr>c_key = subscriptionKey ch sy, c_channel = ch, c_symbol = sy\<rparr>"
    using assms(1) closure_subscribe [of ch sy h1 c0] by simp
  have u2: "u2 = \<lparr>c_key = subscriptionKey ch' sy', c_channel = ch', c_symbol = sy'\<rparr>"
    using assms(2) closure_subscribe [of ch' sy' h2 c] by simp
  have c2: "c2 = snd (subscribe ch' sy' h2 c)" using assms(2) by simp
  have "map_of (subscriptions c2) (c_key u1) = Some \<lparr>channel = ch', symbol = sy', handler = h2\<rparr>"
    by (simp add: c2 u1 assms(3) subscribe_def Let_def sendSubscribe_def update_conv')
  moreover have "map_of (subscriptions (unsubscribe u1 c2)) (c_key u1) = None"
    by (simp add: delete_conv')
  ultimately show ?thesis
    by (simp add: u1 u2 assms(3) closure_subscribe)
qed

theorem stale_closure_removes_newer_witness:
  "map_of (subscriptions (snd (subscribe ''ticker'' (Some ''BTC-USDT'') (quiet 2)
       (unsubscribe (fst (subscribe ''ticker'' (Some ''BTC-USDT'') (quiet 1) opened))
          (snd (subscribe ''ticker'' (Some ''BTC-USDT'') (quiet 1) opened))))))
     ''ticker:BTC-USDT'' =
     Some \<lparr>channel = ''ticker'', symbol = Some ''BTC-USDT'', handler = quiet 2\<rparr>
   \<and> map_of (subscriptions
        (unsubscribe (fst (subscribe ''ticker'' (Some ''BTC-USDT'') (quiet 1) opened))
          (snd (subscribe ''ticker'' (Some ''BTC-USDT'') (quiet 2)
            (unsubscribe (fst (subscribe ''ticker'' (Some ''BTC-USDT'') (quiet 1) opened))
               (snd (subscribe ''ticker'' (Some ''BTC-USDT'') (quiet 1) opened)))))))
     ''ticker:BTC-USDT'' = None"
  using stale_closure_removes_newer [OF prod.collapse [symmetric] prod.collapse [symmetric] refl,
      of "''ticker''" "Some ''BTC-USDT''" "quiet 1" opened "quiet 2"
        "unsubscribe (fst (subscribe ''ticker'' (Some ''BTC-USDT'') (quiet 1) opened))
          (snd (subscribe ''ticker'' (Some ''BTC-USDT'') (quiet 1) opened))"]
  by (simp add: closure_subscribe subscriptionKey_def)

section \<open>The connection manager\<close>

subsection \<open>What each step leaves as it is\<close>

lemma scheduled_emit [simp]:
  "scheduled (emit e c) = scheduled c @ (if isTimeoutSet e then [e] else [])"
  by (simp add: scheduled_def emit_def)

lemma sendSubscribe_eq:
  "sendSubscribe ch sy c =
     (case ws c of
        None \<Rightarrow> c
      | Some h \<Rightarrow>
          if wsOpen c then c\<lparr>trace := trace c @ [Sent h (Subscribe ch sy)]\<rparr> else c)"
  by (simp add: sendSubscribe_def send_def emit_def split: option.splits)

lemma foldl_sendSubscribe:
  "foldl (\<lambda>c' (k, s). sendSubscribe (channel s) (symbol s) c') c xs =
     (case ws c of
        None \<Rightarrow> c
      | Some h \<Rightarrow>
          if wsOpen c
          then c\<lparr>trace := trace c @ map (\<lambda>(k, s). Sent h (Subscribe (channel s) (symbol s))) xs\<rparr>
          else c)"
proof (induction xs arbitrary: c)
  case Nil
  then show ?case by (simp split: option.splits)
next
  case (Cons x xs)
  obtain k s where x: "x = (k, s)" by (cases x)
  let ?F = "\<lambda>c' (k, s). sendSubscribe (channel s) (symbol s) c'"
  let ?c = "sendSubscribe (channel s) (symbol s) c"
  have "foldl ?F c (x # xs) = foldl ?F ?c xs" by (simp add: x)
  also have "\<dots> = (case ws ?c of
        None \<Rightarrow> ?c
      | Some h \<Rightarrow>
          if wsOpen ?c
          then ?c\<lparr>trace := trace ?c @ map (\<lambda>(k, s). Sent h (Subscribe (channel s) (symbol s))) xs\<rparr>
          else ?c)" by (rule Cons.IH)
  also have "\<dots> = (case ws c of
        None \<Rightarrow> c
      | Some h \<Rightarrow>
          if wsOpen c
          then c\<lparr>trace := trace c @ map (\<lambda>(k, s). Sent h (Subscribe (channel s) (symbol s))) (x # xs)\<rparr>
          else c)"
    by (simp add: sendSubscribe_eq x wsOpen_def split: option.splits)
  finally show ?case .
qed

lemma resubscribeAll_eq:
  "resubscribeAll c =
     (case ws c of
        None \<Rightarrow> c
      | Some h \<Rightarrow>
          if wsOpen c
          then c\<lparr>trace := trace c @
                 map (\<lambda>(k, s). Sent h (Subscribe (channel s) (symbol s))) (subscriptions c)\<rparr>
          else c)"
  by (simp add: resubscribeAll_def foldl_sendSubscribe)

lemma frame_emit [simp]:
  "reconnect (emit e c) = reconnect c" "timeouts (emit e c) = timeouts c"
  by (simp_all add: emit_def)

lemma frame_callErrorHandler [simp]:
  "reconnect (snd (callErrorHandler e c)) = reconnect c"
  "timeouts (snd (callErrorHandler e c)) = timeouts c"
  "scheduled (snd (callErrorHandler e c)) = scheduled c"
  by (simp_all add: callErrorHandler_def split: option.splits)

lemma frame_uncaught [simp]:
  "reconnect (uncaught r) = reconnect (snd r)"
  "timeouts (uncaught r) = timeouts (snd r)"
  "scheduled (uncaught r) = scheduled (snd r)"
  by (simp_all add: uncaught_def split: option.splits)

lemma frame_send [simp]:
  "reconnect (send d c) = reconnect c"
  "timeouts (send d c) = timeouts c"
  "scheduled (send d c) = scheduled c"
  by (simp_all add: send_def split: option.splits)

lemma frame_resubscribeAll [simp]:
  "reconnect (resubscribeAll c) = reconnect c"
  "timeouts (resubscribeAll c) = timeouts c"
  "scheduled (resubscribeAll c) = scheduled c"
  by (simp_all add: resubscribeAll_eq scheduled_def split: option.splits prod.splits)

lemma frame_pings [simp]:
  "reconnect (startPingInterval c) = reconnect c"
  "timeouts (startPingInterval c) = timeouts c"
  "scheduled (startPingInterval c) = scheduled c"
  "reconnect (stopPingInterval c) = reconnect c"
  "timeouts (stopPingInterval c) = timeouts c"
  "scheduled (stopPingInterval c) = scheduled c"
  by (simp_all add: startPingInterval_def stopPingInterval_def scheduled_def split: option.splits)

lemma frame_setSocket [simp]:
  "reconnect (setSocket h f c) = reconnect c"
  "timeouts (setSocket h f c) = timeouts c"
  "scheduled (setSocket h f c) = scheduled c"
  by (simp_all add: setSocket_def scheduled_def)

lemma frame_rejected [simp]:
  "reconnect (rejected who e c) = reconnect c"
  "timeouts (rejected who e c) = timeouts c"
  "scheduled (rejected who e c) = scheduled c"
  by (simp_all add: rejected_def split: origin.splits)

lemma frame_reject [simp]:
  "reconnect (reject h e c) = reconnect c"
  "timeouts (reject h e c) = timeouts c"
  "scheduled (reject h e c) = scheduled c"
  by (simp_all add: reject_def split: promise.splits)

lemma frame_connect [simp]:
  "reconnect (connect H who c) = reconnect c"
  "timeouts (connect H who c) = timeouts c"
  "scheduled (connect H who c) = scheduled c"
  by (simp_all add: connect_def Let_def scheduled_def [of "c\<lparr>isConnecting := False\<rparr>"]
      scheduled_def [of "c\<lparr>isConnecting := True, ws := x, sockets := y\<rparr>" for x y]
      scheduled_def [of c] split: option.splits)

lemma frame_onopen [simp]:
  "reconnect (onopen h c) = reconnect c"
  "timeouts (onopen h c) = timeouts c"
  "scheduled (onopen h c) = scheduled c"
  by (simp_all add: onopen_def resolve_def scheduled_def [of "c\<lparr>isConnecting := False, reconnectAttempts := 0\<rparr>"]
       scheduled_def [of c])

lemma frame_onerror [simp]:
  "reconnect (snd (onerror h c)) = reconnect c"
  "timeouts (snd (onerror h c)) = timeouts c"
  "scheduled (snd (onerror h c)) = scheduled c"
  by (simp_all add: onerror_def Let_def scheduled_def [of "c\<lparr>isConnecting := False\<rparr>"]
       scheduled_def [of c] split: option.splits)

lemma frame_onclose [simp]:
  "reconnect (snd (onclose H h w c)) = reconnect c"
  "\<not> reconnect c \<or> w \<Longrightarrow> timeouts (snd (onclose H h w c)) = timeouts c"
  "\<not> reconnect c \<or> w \<Longrightarrow> scheduled (snd (onclose H h w c)) = scheduled c"
  by (auto simp: onclose_def Let_def scheduleReconnect_def scheduled_def [of "c\<lparr>isConnecting := False\<rparr>"]
       scheduled_def [of c] emit_def)

lemma frame_handleMessage [simp]:
  "reconnect (snd (handleMessage H raw c)) = reconnect c"
  "timeouts (snd (handleMessage H raw c)) = timeouts c"
  "scheduled (snd (handleMessage H raw c)) = scheduled c"
  by (simp_all add: handleMessage_def handleMessage_try_def callHandler_def
      split: option.splits prod.splits)

lemma frame_subscribe [simp]:
  "reconnect (snd (subscribe ch sy h c)) = reconnect c"
  "timeouts (snd (subscribe ch sy h c)) = timeouts c"
  "scheduled (snd (subscribe ch sy h c)) = scheduled c"
  by (simp_all add: subscribe_def Let_def sendSubscribe_def scheduled_def [of "c\<lparr>subscriptions := x\<rparr>" for x]
       scheduled_def [of c])

lemma frame_unsubscribe [simp]:
  "reconnect (unsubscribe u c) = reconnect c"
  "timeouts (unsubscribe u c) = timeouts c"
  "scheduled (unsubscribe u c) = scheduled c"
  by (simp_all add: unsubscribe_def Let_def sendUnsubscribe_def scheduled_def [of "c\<lparr>subscriptions := x\<rparr>" for x]
       scheduled_def [of c])

lemma frame_disconnect [simp]:
  "\<not> reconnect (disconnect c)"
  "set (timeouts (disconnect c)) \<subseteq> set (timeouts c)"
  "scheduled (disconnect c) = scheduled c"
  by (auto simp: disconnect_def Let_def ws_close_def scheduled_def stopPingInterval_def setSocket_def split: option.splits)

lemma reconnect_step: "reconnect (step H a c) = (reconnect c \<and> a \<noteq> Disconnect)"
  by (cases a) (simp_all add: onError_def reconnectTimer_def onmessage_def Let_def)

lemma scheduled_step: "\<not> reconnect c \<Longrightarrow> scheduled (step H a c) = scheduled c"
  by (cases a) (simp_all add: onError_def reconnectTimer_def onmessage_def Let_def scheduled_def [of "c\<lparr>errorHandler := x\<rparr>" for x]
       scheduled_def [of "c\<lparr>timeouts := x\<rparr>" for x] scheduled_def [of c])

lemma timeouts_step: "\<not> reconnect c \<Longrightarrow> set (timeouts (step H a c)) \<subseteq> set (timeouts c)"
  by (cases a) (auto simp: onError_def reconnectTimer_def onmessage_def Let_def)

subsection \<open>Losing the transport and reconnecting\<close>

lemma numLess_Fin [simp]: "numLess (Fin x) (Fin y) = (x < y)"
  by (simp add: numLess_def)

lemma numGe_Fin [simp]: "numGe (Fin x) (Fin y) = (y \<le> x)"
  by (simp add: numGe_def)

lemma delays_emit [simp]: "delays (emit e c) = delays c @ delayOf e"
  by (simp add: delays_def emit_def)

lemma exhausted_emit [simp]:
  "exhausted (emit e c) = exhausted c @ (if isExhausted e then [e] else [])"
  by (simp add: exhausted_def emit_def)

lemma unchanged_refl [simp]: "unchanged c c"
  by (simp add: unchanged_def)

lemma unchanged_trans: "unchanged a b \<Longrightarrow> unchanged b c \<Longrightarrow> unchanged a c"
  by (simp add: unchanged_def)

lemma unchanged_emit:
  "delayOf e = [] \<Longrightarrow> \<not> isExhausted e \<Longrightarrow> unchanged c (emit e c)"
  by (simp add: unchanged_def) (simp add: emit_def)

lemma unchanged_callErrorHandler:
  "e \<noteq> Error ''Max reconnection attempts reached'' \<Longrightarrow> unchanged c (snd (callErrorHandler e c))"
  by (simp add: callErrorHandler_def unchanged_emit split: option.splits)

lemma unchanged_uncaught: "unchanged c (snd r) \<Longrightarrow> unchanged c (uncaught r)"
  by (auto simp: uncaught_def split: option.splits
      intro: unchanged_trans [OF _ unchanged_emit])

lemma unchanged_rejected:
  "e \<noteq> Error ''Max reconnection attempts reached'' \<Longrightarrow> unchanged c (rejected who e c)"
  by (cases who)
    (simp_all add: rejected_def unchanged_emit unchanged_uncaught unchanged_callErrorHandler
      asError_def)

lemma unchanged_settle:
  "unchanged c (setSocket h (\<lambda>s. s\<lparr>promise := Settled\<rparr>) c)"
  by (auto simp: unchanged_def setSocket_def delays_def exhausted_def map_update
      list_eq_iff_nth_eq nth_list_update)

lemma unchanged_reject:
  "e \<noteq> Error ''Max reconnection attempts reached'' \<Longrightarrow> unchanged c (reject h e c)"
  by (auto simp: reject_def split: promise.splits
      intro: unchanged_trans [OF unchanged_settle unchanged_rejected])

lemma unchanged_onerror: "unchanged (c\<lparr>isConnecting := False\<rparr>) (snd (onerror h c))"
proof -
  let ?c = "c\<lparr>isConnecting := False\<rparr>"
  let ?r = "callErrorHandler (Error ''WebSocket error'') ?c"
  have a: "unchanged ?c (snd ?r)" by (simp add: unchanged_callErrorHandler)
  have b: "unchanged (snd ?r) (reject h (Error ''WebSocket error'') (snd ?r))"
    by (simp add: unchanged_reject)
  show ?thesis
    using a unchanged_trans [OF a b]
    by (simp add: onerror_def Let_def split: option.splits)
qed


lemma onclose_schedules:
  assumes "reconnect c" and "\<not> numGe (Fin (of_nat (reconnectAttempts c))) (maxReconnectAttempts c)"
  shows "onclose H h False c =
    (None, (stopPingInterval (c\<lparr>isConnecting := False\<rparr>))
      \<lparr>reconnectAttempts := Suc (reconnectAttempts c),
       reconnectTimeout := Some (nextTimer c),
       timeouts := timeouts c @
         [(nextTimer c, reconnectDelay H (reconnectInterval c) (Suc (reconnectAttempts c)))],
       nextTimer := Suc (nextTimer c),
       trace := trace c @
         [TimeoutSet (nextTimer c) (reconnectDelay H (reconnectInterval c) (Suc (reconnectAttempts c)))]\<rparr>)"
  using assms
  by (simp add: onclose_def Let_def scheduleReconnect_def stopPingInterval_def emit_def
      split: option.splits)


text \<open>The state before the closure handler runs: the socket is closed, an error reported.\<close>

lemma before_onclose:
  fixes e :: bool
  defines "c1 \<equiv> \<lambda>h c. setSocket h (\<lambda>s. s\<lparr>readyState := CLOSED\<rparr>) c"
  defines "c2 \<equiv> \<lambda>h c. if e then uncaught (onerror h (c1 h c)) else c1 h c"
  shows "unchanged ((c1 h c)\<lparr>isConnecting := False\<rparr>) ((c2 h c)\<lparr>isConnecting := False\<rparr>)"
proof (cases e)
  case True
  have "unchanged ((c1 h c)\<lparr>isConnecting := False\<rparr>) (uncaught (onerror h (c1 h c)))"
    by (rule unchanged_uncaught) (rule unchanged_onerror)
  then show ?thesis
    using True by (simp add: c2_def unchanged_def delays_def exhausted_def)
next
  case False
  then show ?thesis by (simp add: c2_def)
qed


lemma stopPingInterval_fields [simp]:
  "reconnectAttempts (stopPingInterval c) = reconnectAttempts c"
  "url (stopPingInterval c) = url c" "ws (stopPingInterval c) = ws c"
  "sockets (stopPingInterval c) = sockets c"
  "isConnecting (stopPingInterval c) = isConnecting c"
  "nextTimer (stopPingInterval c) = nextTimer c"
  "maxReconnectAttempts (stopPingInterval c) = maxReconnectAttempts c"
  "reconnectInterval (stopPingInterval c) = reconnectInterval c"
  "errorHandler (stopPingInterval c) = errorHandler c"
  "subscriptions (stopPingInterval c) = subscriptions c"
  "trace (stopPingInterval c) = trace c"
  by (simp_all add: stopPingInterval_def split: option.splits)

lemma close_schedules:
  fixes e :: bool
  assumes L: "losing H c j h" and lt: "\<not> numGe (Fin (of_nat j)) (maxReconnectAttempts c)"
  defines "c' \<equiv> step H (WsClose h False e) c"
  shows "reconnect c'" "reconnectAttempts c' = Suc j" "url c' = url c"
    "ws c' = Some h"
    "map readyState (sockets c') = (map readyState (sockets c))[h := CLOSED]"
    "\<not> isConnecting c'"
    "timeouts c' = [(nextTimer c, reconnectDelay H (reconnectInterval c) (Suc j))]"
    "nextTimer c' = Suc (nextTimer c)"
    "maxReconnectAttempts c' = maxReconnectAttempts c"
    "reconnectInterval c' = reconnectInterval c"
    "errorHandler c' = errorHandler c"
    "subscriptions c' = subscriptions c"
    "delays c' = delays c @ [reconnectDelay H (reconnectInterval c) (Suc j)]"
    "exhausted c' = exhausted c"
proof -
  define c1 where "c1 = setSocket h (\<lambda>s. s\<lparr>readyState := CLOSED\<rparr>) c"
  define c2 where "c2 = (if e then uncaught (onerror h c1) else c1)"
  have g: "socketIn c h {CONNECTING, OPEN, CLOSING}" using L by (simp add: losing_def)
  have st: "c' = uncaught (onclose H h False c2)"
    by (simp add: c'_def g Let_def c2_def c1_def)
  have u: "unchanged (c1\<lparr>isConnecting := False\<rparr>) (c2\<lparr>isConnecting := False\<rparr>)"
    unfolding c2_def c1_def by (rule before_onclose)
  have f1: "reconnect c1" "reconnectAttempts c1 = j" "url c1 = url c" "ws c1 = Some h"
    "map readyState (sockets c1) = (map readyState (sockets c))[h := CLOSED]"
    "timeouts c1 = []" "nextTimer c1 = nextTimer c"
    "maxReconnectAttempts c1 = maxReconnectAttempts c"
    "reconnectInterval c1 = reconnectInterval c" "errorHandler c1 = errorHandler c"
    "subscriptions c1 = subscriptions c" "delays c1 = delays c" "exhausted c1 = exhausted c"
    using L g
    by (simp_all add: c1_def losing_def setSocket_def socketIn_def map_update delays_def
        exhausted_def)
  have f2: "reconnect c2" "reconnectAttempts c2 = j" "url c2 = url c" "ws c2 = Some h"
    "map readyState (sockets c2) = (map readyState (sockets c))[h := CLOSED]"
    "timeouts c2 = []" "nextTimer c2 = nextTimer c"
    "maxReconnectAttempts c2 = maxReconnectAttempts c"
    "reconnectInterval c2 = reconnectInterval c" "errorHandler c2 = errorHandler c"
    "subscriptions c2 = subscriptions c" "delays c2 = delays c" "exhausted c2 = exhausted c"
    using u f1 by (simp_all add: unchanged_def delays_def exhausted_def)
  have "onclose H h False c2 =
    (None, (stopPingInterval (c2\<lparr>isConnecting := False\<rparr>))
      \<lparr>reconnectAttempts := Suc (reconnectAttempts c2),
       reconnectTimeout := Some (nextTimer c2),
       timeouts := timeouts c2 @
         [(nextTimer c2, reconnectDelay H (reconnectInterval c2) (Suc (reconnectAttempts c2)))],
       nextTimer := Suc (nextTimer c2),
       trace := trace c2 @
         [TimeoutSet (nextTimer c2) (reconnectDelay H (reconnectInterval c2) (Suc (reconnectAttempts c2)))]\<rparr>)"
    by (rule onclose_schedules) (simp_all only: f2 lt not_False_eq_True)
  then have c': "c' = (stopPingInterval (c2\<lparr>isConnecting := False\<rparr>))
      \<lparr>reconnectAttempts := Suc j,
       reconnectTimeout := Some (nextTimer c),
       timeouts := [(nextTimer c, reconnectDelay H (reconnectInterval c) (Suc j))],
       nextTimer := Suc (nextTimer c),
       trace := trace c2 @ [TimeoutSet (nextTimer c) (reconnectDelay H (reconnectInterval c) (Suc j))]\<rparr>"
    by (simp add: st uncaught_def f2)
  show "reconnect c'" "reconnectAttempts c' = Suc j" "url c' = url c"
    "ws c' = Some h"
    "map readyState (sockets c') = (map readyState (sockets c))[h := CLOSED]"
    "\<not> isConnecting c'"
    "timeouts c' = [(nextTimer c, reconnectDelay H (reconnectInterval c) (Suc j))]"
    "nextTimer c' = Suc (nextTimer c)"
    "maxReconnectAttempts c' = maxReconnectAttempts c"
    "reconnectInterval c' = reconnectInterval c"
    "errorHandler c' = errorHandler c"
    "subscriptions c' = subscriptions c"
    using f2 by (simp_all add: c')
  show "delays c' = delays c @ [reconnectDelay H (reconnectInterval c) (Suc j)]"
    using f2(12) by (simp add: c' delays_def)
  show "exhausted c' = exhausted c"
    using f2(13) by (simp add: c' exhausted_def)
qed

lemma closed_not_open:
  assumes "ws c = Some h" and "map readyState (sockets c) = rs[h := CLOSED]"
  shows "\<not> wsOpen c"
proof
  assume "wsOpen c"
  then have h: "h < length (sockets c)" "readyState (sockets c ! h) = OPEN"
    using assms(1) by (simp_all add: wsOpen_def)
  then have "map readyState (sockets c) ! h = OPEN" by simp
  moreover have "h < length rs" using h(1) assms(2) by (metis length_list_update length_map)
  ultimately show False using assms(2) by simp
qed

lemma fire_connects:
  assumes "timeouts c = [(t, d)]" and "\<not> isConnecting c" and "\<not> wsOpen c"
    and "construct H (url c) = None"
  shows "step H (TimerFire t) c =
     c\<lparr>timeouts := [], isConnecting := True, ws := Some (length (sockets c)),
       sockets := sockets c @
         [\<lparr>readyState = CONNECTING, target = (url c, authParam c), promise = Pending ByTimer\<rparr>]\<rparr>"
proof -
  have w: "wsOpen (c\<lparr>timeouts := []\<rparr>) = wsOpen c"
    by (simp add: wsOpen_def split: option.splits)
  have a: "authParam (c\<lparr>timeouts := [], isConnecting := True\<rparr>) = authParam c"
    by (simp add: authParam_def split: option.splits)
  show ?thesis
    using assms by (simp add: reconnectTimer_def connect_def w a Let_def)
qed

lemma round_fails:
  fixes e :: bool
  assumes L: "losing H c j h" and lt: "\<not> numGe (Fin (of_nat j)) (maxReconnectAttempts c)"
  defines "c' \<equiv> step H (TimerFire (nextTimer c)) (step H (WsClose h False e) c)"
  shows "losing H c' (Suc j) (length (sockets c))"
    "length (sockets c') = Suc (length (sockets c))"
    "nextTimer c' = Suc (nextTimer c)"
    "maxReconnectAttempts c' = maxReconnectAttempts c"
    "reconnectInterval c' = reconnectInterval c"
    "errorHandler c' = errorHandler c"
    "subscriptions c' = subscriptions c"
    "delays c' = delays c @ [reconnectDelay H (reconnectInterval c) (Suc j)]"
    "exhausted c' = exhausted c"
    "socketIn c' (length (sockets c)) {CONNECTING}"
    "trace c' = trace (step H (WsClose h False e) c)"
proof -
  define c1 where "c1 = step H (WsClose h False e) c"
  note f = close_schedules [OF L lt, of e, folded c1_def]
  have n: "\<not> wsOpen c1" using f(4,5) by (rule closed_not_open)
  have u: "construct H (url c1) = None" using L f(3) by (simp add: losing_def)
  have len: "length (sockets c1) = length (sockets c)"
    using f(5) by (metis length_list_update length_map)
  have c': "c' = c1\<lparr>timeouts := [], isConnecting := True, ws := Some (length (sockets c1)),
       sockets := sockets c1 @
         [\<lparr>readyState = CONNECTING, target = (url c1, authParam c1), promise = Pending ByTimer\<rparr>]\<rparr>"
    unfolding c'_def c1_def [symmetric] using f(7) f(6) n u by (rule fire_connects)
  show "losing H c' (Suc j) (length (sockets c))"
    using f u len by (simp add: c' losing_def socketIn_def nth_append)
  show "length (sockets c') = Suc (length (sockets c))" by (simp add: c' len)
  show "nextTimer c' = Suc (nextTimer c)" by (simp add: c' f)
  show "maxReconnectAttempts c' = maxReconnectAttempts c" by (simp add: c' f)
  show "reconnectInterval c' = reconnectInterval c" by (simp add: c' f)
  show "errorHandler c' = errorHandler c" by (simp add: c' f)
  show "subscriptions c' = subscriptions c" by (simp add: c' f)
  show "delays c' = delays c @ [reconnectDelay H (reconnectInterval c) (Suc j)]"
    using f(13) by (simp add: c' delays_def)
  show "exhausted c' = exhausted c" using f(14) by (simp add: c' exhausted_def)
  show "socketIn c' (length (sockets c)) {CONNECTING}"
    by (simp add: c' socketIn_def len nth_append)
  show "trace c' = trace c1" by (simp add: c')
qed

lemma run_Cons [simp]: "run H (a # acts) c = run H acts (step H a c)"
  by (simp add: run_def)

lemma run_Nil [simp]: "run H [] c = c"
  by (simp add: run_def)


lemma lastSocket_shift [simp]: "lastSocket l (Suc l) n = l + n"
  by (cases n) simp_all



lemma impatient_eq:
  "impatient = opened\<lparr>reconnectInterval := Fin 0\<rparr>"
  by (simp add: impatient_def opened_eq demoHost_def client_defs)

lemma endless_eq:
  "endless = opened\<lparr>reconnectInterval := PosInf\<rparr>"
  by (simp add: endless_def opened_eq demoHost_def client_defs)

lemma patient_eq:
  "patient = opened\<lparr>maxReconnectAttempts := Fin 3, errorHandler := Some logging\<rparr>"
  by (simp add: patient_def opened_eq demoHost_def client_defs)

lemma losing_opened:
  "losing demoHost opened 0 0" "losing demoHost impatient 0 0" "losing demoHost patient 0 0"
  "losing demoHost subscribed 0 0" "losing demoHost endless 0 0"
  by (simp_all add: losing_def impatient_eq endless_eq patient_eq subscribed_eq opened_eq
      socketIn_def demoHost_def)



subsection \<open>Exponential backoff and the attempt cap\<close>





subsection \<open>Disconnecting\<close>

lemma not_reconnect_run:
  "\<not> reconnect c \<Longrightarrow>
     \<not> reconnect (run H acts c) \<and> scheduled (run H acts c) = scheduled c \<and>
     set (timeouts (run H acts c)) \<subseteq> set (timeouts c)"
proof (induction acts arbitrary: c)
  case Nil
  then show ?case by simp
next
  case (Cons a acts)
  have n: "\<not> reconnect (step H a c)" using Cons.prems by (simp add: reconnect_step)
  from Cons.IH [OF n] scheduled_step [OF Cons.prems, of H a] timeouts_step [OF Cons.prems, of H a]
  show ?case by auto
qed

lemma close_without_reconnect:
  fixes e :: bool
  assumes "\<not> reconnect c \<or> w"
  shows "scheduled (step H (WsClose h w e) c) = scheduled c"
    and "timeouts (step H (WsClose h w e) c) = timeouts c"
  using assms by (auto simp: Let_def)

lemma opened_quiet: "scheduled opened = []" "timeouts opened = []"
  by (simp_all add: scheduled_def opened_eq)


text \<open>
  Claim C4. After \<open>disconnect()\<close>, whatever the caller and the host do next, the closure
  of any socket (clean or not, after an \<open>error\<close> event or not, the socket in use or a stale
  one) schedules no reconnection attempt: no timeout is set and the pending timeouts stay
  as they are. In any state, a clean closure schedules none either.
\<close>

theorem no_reconnect_after_disconnect:
  fixes e :: bool
  shows "scheduled (step H (WsClose h wasClean e) (run H acts (disconnect c))) =
      scheduled (run H acts (disconnect c))
   \<and> timeouts (step H (WsClose h wasClean e) (run H acts (disconnect c))) =
      timeouts (run H acts (disconnect c))
   \<and> scheduled (step H (WsClose h True e) c) = scheduled c
   \<and> timeouts (step H (WsClose h True e) c) = timeouts c"
proof -
  have n: "\<not> reconnect (run H acts (disconnect c)) \<or> wasClean"
    using not_reconnect_run [of "disconnect c" H acts] by simp
  have t: "\<not> reconnect c \<or> True" by simp
  from close_without_reconnect [OF n, of H h e] close_without_reconnect [OF t, of H h e]
  show ?thesis by (intro conjI)
qed

theorem no_reconnect_after_disconnect_witness:
  "scheduled (step demoHost (WsClose 0 False True) (run demoHost [Connect] (disconnect opened))) = []
   \<and> timeouts (step demoHost (WsClose 0 False True) (run demoHost [Connect] (disconnect opened))) = []"
proof -
  have "scheduled (run demoHost [Connect] (disconnect opened)) = []"
    by (simp add: opened_quiet)
  moreover have "timeouts (run demoHost [Connect] (disconnect opened)) = []"
    using frame_disconnect(2) [of opened] by (simp add: opened_quiet)
  moreover note no_reconnect_after_disconnect [of demoHost 0 False True "[Connect]" opened]
  ultimately show ?thesis by (simp only: simp_thms)
qed

text \<open>
  Claim C8. \<open>disconnect()\<close> sets the stored \<open>reconnect\<close> option to false, and no sequence
  of calls and events afterwards (a later \<open>connect()\<close> that succeeds included) sets it
  again; so for the rest of the client's life no reconnection attempt is scheduled and no
  timeout is added to the pending ones.
\<close>

theorem disconnect_disables_reconnect:
  "\<not> reconnect (disconnect c)
   \<and> \<not> reconnect (run H acts (disconnect c))
   \<and> scheduled (run H acts (disconnect c)) = scheduled c
   \<and> set (timeouts (run H acts (disconnect c))) \<subseteq> set (timeouts c)"
proof -
  have n: "\<not> reconnect (disconnect c)" by simp
  from not_reconnect_run [OF n, of H acts]
  have "\<not> reconnect (run H acts (disconnect c))"
    "scheduled (run H acts (disconnect c)) = scheduled c"
    "set (timeouts (run H acts (disconnect c))) \<subseteq> set (timeouts (disconnect c))"
    by simp_all
  moreover have "set (timeouts (disconnect c)) \<subseteq> set (timeouts c)" by simp
  ultimately show ?thesis using n by blast
qed

theorem disconnect_disables_reconnect_witness:
  "\<not> reconnect (run demoHost [Connect, WsOpen 1, WsClose 1 False False] (disconnect opened))
   \<and> scheduled (run demoHost [Connect, WsOpen 1, WsClose 1 False False] (disconnect opened)) = []"
  using disconnect_disables_reconnect [of opened demoHost "[Connect, WsOpen 1, WsClose 1 False False]"]
  by (simp only: opened_quiet simp_thms)

subsection \<open>Replaying the registry\<close>

lemma open_replays:
  assumes "ws c = Some h" and "socketIn c h {CONNECTING}"
  shows "trace (step H (WsOpen h) c) =
           trace c @ map (\<lambda>(k, s). Sent h (Subscribe (channel s) (symbol s))) (subscriptions c)"
    and "reconnectAttempts (step H (WsOpen h) c) = 0"
    and "subscriptions (step H (WsOpen h) c) = subscriptions c"
  using assms
  by (simp_all add: onopen_def resolve_def setSocket_def startPingInterval_def resubscribeAll_eq
      wsOpen_def socketIn_def)

lemma subscriptions_onclose [simp]: "subscriptions (snd (onclose H h w c)) = subscriptions c"
  by (simp add: onclose_def Let_def scheduleReconnect_def callErrorHandler_def emit_def
      split: option.splits)

lemma subscriptions_uncaught [simp]: "subscriptions (uncaught r) = subscriptions (snd r)"
  by (simp add: uncaught_def split: option.splits)

lemma subscriptions_onerror [simp]: "subscriptions (snd (onerror h c)) = subscriptions c"
  using unchanged_onerror [of c h] by (simp add: unchanged_def)

lemma subscriptions_close:
  fixes e :: bool
  shows "subscriptions (step H (WsClose h w e) c) = subscriptions c"
  by (simp add: Let_def setSocket_def)

text \<open>
  Claim C5. When the socket in use signals \<open>open\<close>, every entry of the registry is sent
  as a \<open>subscribe\<close> message on it, in the order of the registry, and the attempt counter
  is reset to zero. The closure of a socket leaves the registry as it is. So after a
  closure that is not clean, once the reconnect timer has fired and the new socket has
  opened, the subscriptions registered before the loss have been sent again, with no call
  of the caller in between.
\<close>

theorem open_replays_registry:
  fixes e :: bool
  shows "(ws c = Some h \<and> socketIn c h {CONNECTING} \<longrightarrow>
            trace (step H (WsOpen h) c) =
              trace c @
              map (\<lambda>(k, s). Sent h (Subscribe (channel s) (symbol s))) (subscriptions c)
          \<and> reconnectAttempts (step H (WsOpen h) c) = 0
          \<and> subscriptions (step H (WsOpen h) c) = subscriptions c)
     \<and> subscriptions (step H (WsClose h w e) c) = subscriptions c
     \<and> (losing H c j h \<and> \<not> numGe (Fin (of_nat j)) (maxReconnectAttempts c) \<longrightarrow>
          subscriptions (run H [WsClose h False e, TimerFire (nextTimer c)] c) = subscriptions c
          \<and> trace (run H [WsClose h False e, TimerFire (nextTimer c),
                          WsOpen (length (sockets c))] c) =
              trace (run H [WsClose h False e] c) @
              map (\<lambda>(k, s). Sent (length (sockets c)) (Subscribe (channel s) (symbol s)))
                (subscriptions c)
          \<and> reconnectAttempts (run H [WsClose h False e, TimerFire (nextTimer c),
                          WsOpen (length (sockets c))] c) = 0)"
proof (intro conjI impI)
  assume a: "ws c = Some h \<and> socketIn c h {CONNECTING}"
  then show "trace (step H (WsOpen h) c) =
              trace c @
              map (\<lambda>(k, s). Sent h (Subscribe (channel s) (symbol s))) (subscriptions c)"
    by (simp only: open_replays(1))
  from a show "reconnectAttempts (step H (WsOpen h) c) = 0" by (simp only: open_replays(2))
  from a show "subscriptions (step H (WsOpen h) c) = subscriptions c"
    by (simp only: open_replays(3))
next
  show "subscriptions (step H (WsClose h w e) c) = subscriptions c"
    by (rule subscriptions_close)
next
  assume a: "losing H c j h \<and> \<not> numGe (Fin (of_nat j)) (maxReconnectAttempts c)"
  define c2 where "c2 = step H (TimerFire (nextTimer c)) (step H (WsClose h False e) c)"
  note r = round_fails [OF conjunct1 [OF a] conjunct2 [OF a], of e, folded c2_def]
  have w: "ws c2 = Some (length (sockets c))" using r(1) by (simp add: losing_def)
  have r2: "run H [WsClose h False e, TimerFire (nextTimer c)] c = c2"
    by (simp only: run_Cons run_Nil c2_def)
  have r3: "run H [WsClose h False e, TimerFire (nextTimer c), WsOpen (length (sockets c))] c =
      step H (WsOpen (length (sockets c))) c2"
    by (simp only: run_Cons run_Nil c2_def)
  have r1: "run H [WsClose h False e] c = step H (WsClose h False e) c"
    by (simp only: run_Cons run_Nil)
  show "subscriptions (run H [WsClose h False e, TimerFire (nextTimer c)] c) = subscriptions c"
    unfolding r2 by (rule r(7))
  show "trace (run H [WsClose h False e, TimerFire (nextTimer c),
                          WsOpen (length (sockets c))] c) =
              trace (run H [WsClose h False e] c) @
              map (\<lambda>(k, s). Sent (length (sockets c)) (Subscribe (channel s) (symbol s)))
                (subscriptions c)"
    unfolding r3 r1 open_replays(1) [OF w r(10)] r(7) r(11) ..
  show "reconnectAttempts (run H [WsClose h False e, TimerFire (nextTimer c),
                          WsOpen (length (sockets c))] c) = 0"
    unfolding r3 by (rule open_replays(2) [OF w r(10)])
qed

theorem open_replays_registry_witness:
  "trace (run demoHost [WsClose 0 False False, TimerFire 2, WsOpen 1] subscribed) =
     trace (run demoHost [WsClose 0 False False] subscribed) @
       [Sent 1 (Subscribe ''orderbook'' (Some ''BTC-USDT'')),
        Sent 1 (Subscribe ''orderbook'' (Some ''ETH-USDT''))]
   \<and> reconnectAttempts (run demoHost [WsClose 0 False False, TimerFire 2, WsOpen 1] subscribed) = 0"
proof -
  have p: "length (sockets subscribed) = 1" "nextTimer subscribed = 2"
    "subscriptions subscribed =
        [(''orderbook:BTC-USDT'',
          \<lparr>channel = ''orderbook'', symbol = Some ''BTC-USDT'', handler = quiet 1\<rparr>),
         (''orderbook:ETH-USDT'',
          \<lparr>channel = ''orderbook'', symbol = Some ''ETH-USDT'', handler = quiet 2\<rparr>)]"
    "\<not> numGe (Fin (of_nat 0)) (maxReconnectAttempts subscribed)"
    by (simp_all add: subscribed_eq opened_eq)
  have "losing demoHost subscribed 0 0 \<and>
      \<not> numGe (Fin (of_nat 0)) (maxReconnectAttempts subscribed)"
    using losing_opened(4) p(4) by simp
  with open_replays_registry [of subscribed 0 demoHost _ False 0]
  have "trace (run demoHost [WsClose 0 False False, TimerFire (nextTimer subscribed),
                          WsOpen (length (sockets subscribed))] subscribed) =
              trace (run demoHost [WsClose 0 False False] subscribed) @
              map (\<lambda>(k, s). Sent (length (sockets subscribed)) (Subscribe (channel s) (symbol s)))
                (subscriptions subscribed)
          \<and> reconnectAttempts (run demoHost [WsClose 0 False False, TimerFire (nextTimer subscribed),
                          WsOpen (length (sockets subscribed))] subscribed) = 0"
    by blast
  then show ?thesis by (simp only: p list.map prod.case Subscription.simps)
qed

subsection \<open>Connecting twice\<close>

lemma connect_guarded: "wsOpen c \<or> isConnecting c \<Longrightarrow> connect H who c = c"
  by (simp add: connect_def)

lemma racing_eq:
  "racing =
     \<lparr>ws = Some 1, url = ''wss://api.example/ws'', apiKey = Some ''key'', jwt = None,
      reconnect = False, reconnectInterval = Fin 5000, maxReconnectAttempts = Fin 10,
      subscriptions = [], reconnectAttempts = 0, reconnectTimeout = None,
      pingInterval = None, isConnecting = False, errorHandler = None,
      sockets = [\<lparr>readyState = CLOSED,
                  target = (''wss://api.example/ws'', Some (ApiKeyParam ''key'')),
                  promise = Settled\<rparr>,
                 \<lparr>readyState = CONNECTING,
                  target = (''wss://api.example/ws'', Some (ApiKeyParam ''key'')),
                  promise = Pending ByCaller\<rparr>],
      timeouts = [], intervals = [], nextTimer = 2, trace = []\<rparr>"
  by (simp add: racing_def fresh_def demoHost_def client_defs)

text \<open>
  Claim C6, at the input where the code departs from it. After \<open>connect\<close>, \<open>open\<close>,
  \<open>disconnect\<close> and a second \<open>connect\<close>, an attempt is in flight (socket 1 is connecting
  and \<open>isConnecting\<close> is set), and a further \<open>connect()\<close> changes nothing. The late
  \<open>close\<close> event of the discarded socket 0 then clears \<open>isConnecting\<close>, and the next
  \<open>connect()\<close> constructs socket 2 while socket 1 is still connecting.
\<close>

theorem connect_in_flight_constructs_second_socket:
  "isConnecting (run demoHost [Connect, WsOpen 0, Disconnect, Connect] fresh)
   \<and> step demoHost Connect (run demoHost [Connect, WsOpen 0, Disconnect, Connect] fresh) =
       run demoHost [Connect, WsOpen 0, Disconnect, Connect] fresh
   \<and> map readyState (sockets racing) = [CLOSED, CONNECTING]
   \<and> ws racing = Some 1 \<and> \<not> isConnecting racing
   \<and> map readyState (sockets (step demoHost Connect racing)) = [CLOSED, CONNECTING, CONNECTING]
   \<and> ws (step demoHost Connect racing) = Some 2"
proof -
  have i: "isConnecting (run demoHost [Connect, WsOpen 0, Disconnect, Connect] fresh)"
    by (simp add: fresh_def demoHost_def client_defs)
  then have "step demoHost Connect (run demoHost [Connect, WsOpen 0, Disconnect, Connect] fresh) =
       run demoHost [Connect, WsOpen 0, Disconnect, Connect] fresh"
    by (simp only: step.simps) (rule connect_guarded, rule disjI2)
  with i show ?thesis
    by (simp add: racing_eq connect_def wsOpen_def demoHost_def)
qed

end
